theory Spec2Isabelle
  imports Main "HOL-Library.Product_Lexorder"
begin

section \<open>Text\<close>

text \<open>
  A Python \<open>str\<close> is modelled as a \<open>string\<close>: a list of 8-bit characters, read as
  the code points 0..255 (ASCII and Latin-1). The operations below are Python's on
  that range. \<open>x or d\<close> on an optional string takes the default \<open>d\<close> when \<open>x\<close> is
  \<open>None\<close> or the empty string.
\<close>

definition py_or :: "string option \<Rightarrow> string \<Rightarrow> string" where
  "py_or x d = (case x of None \<Rightarrow> d | Some s \<Rightarrow> (if s = [] then d else s))"

definition code_point :: "char \<Rightarrow> nat" where
  "code_point c = of_char c"

text \<open>\<open>str.lower\<close>: the ASCII capitals and the Latin-1 capitals (all but the times sign).\<close>

definition lower_char :: "char \<Rightarrow> char" where
  "lower_char c =
     (let n = code_point c in
      if (65 \<le> n \<and> n \<le> 90) \<or> (192 \<le> n \<and> n \<le> 222 \<and> n \<noteq> 215)
      then char_of (n + 32) else c)"

definition lower :: "string \<Rightarrow> string" where
  "lower s = map lower_char s"

definition is_az :: "char \<Rightarrow> bool" where
  "is_az c \<longleftrightarrow> 97 \<le> code_point c \<and> code_point c \<le> 122"

definition is_AZ :: "char \<Rightarrow> bool" where
  "is_AZ c \<longleftrightarrow> 65 \<le> code_point c \<and> code_point c \<le> 90"

definition is_09 :: "char \<Rightarrow> bool" where
  "is_09 c \<longleftrightarrow> 48 \<le> code_point c \<and> code_point c \<le> 57"

text \<open>\<open>str.isdigit\<close>: not empty, and every character a digit (the superscripts 1, 2, 3 count).\<close>

definition isdigit :: "string \<Rightarrow> bool" where
  "isdigit s \<longleftrightarrow>
     s \<noteq> [] \<and> list_all (\<lambda>c. is_09 c \<or> code_point c \<in> {178, 179, 185}) s"

text \<open>
  \<open>re.findall\<close> of a pattern \<open>[class]{n,}\<close>: the maximal runs of characters of the class,
  left to right, that are at least \<open>n\<close> long.
\<close>

function findall_runs :: "(char \<Rightarrow> bool) \<Rightarrow> nat \<Rightarrow> string \<Rightarrow> string list" where
  "findall_runs p n [] = []"
| "findall_runs p n (c # cs) =
     (if p c
      then (if n \<le> Suc (length (takeWhile p cs)) then [c # takeWhile p cs] else [])
             @ findall_runs p n (dropWhile p cs)
      else findall_runs p n cs)"
  by pat_completeness auto
termination
  by (relation "measure (\<lambda>(p, n, s). length s)")
    (auto simp: less_Suc_eq_le length_dropWhile_le)

text \<open>
  White space as \<open>str.strip\<close>, \<open>str.split\<close> and the pattern \<open>\s\<close> see it: the ASCII
  controls 9 to 13 and 28 to 31, the space, and the Latin-1 characters 133 and 160.
\<close>

definition isspace_char :: "char \<Rightarrow> bool" where
  "isspace_char c \<longleftrightarrow>
     (let n = code_point c in
      (9 \<le> n \<and> n \<le> 13) \<or> (28 \<le> n \<and> n \<le> 32) \<or> n = 133 \<or> n = 160)"

definition strip :: "string \<Rightarrow> string" where
  "strip s = rev (dropWhile isspace_char (rev (dropWhile isspace_char s)))"

definition startswith :: "string \<Rightarrow> string \<Rightarrow> bool" where
  "startswith s p \<longleftrightarrow> take (length p) s = p"

text \<open>The slices \<open>xs[n:]\<close> and \<open>xs[:n]\<close>; a negative \<open>n\<close> counts from the end.\<close>

definition slice_from :: "int \<Rightarrow> 'a list \<Rightarrow> 'a list" where
  "slice_from n xs = (if 0 \<le> n then drop (nat n) xs else drop (nat (int (length xs) + n)) xs)"

definition slice_to :: "int \<Rightarrow> 'a list \<Rightarrow> 'a list" where
  "slice_to n xs = (if 0 \<le> n then take (nat n) xs else take (nat (int (length xs) + n)) xs)"

text \<open>\<open>s.find(sub, start)\<close>: the first place at or after \<open>start\<close> where \<open>sub\<close> stands, or -1.\<close>

definition str_find :: "string \<Rightarrow> string \<Rightarrow> nat \<Rightarrow> int" where
  "str_find s sub start =
     (case List.find (\<lambda>i. startswith (drop i s) sub) [start..<Suc (length s)] of
        Some i \<Rightarrow> int i | None \<Rightarrow> - 1)"

text \<open>\<open>s.split()\<close>: the maximal runs of characters that are not white space.\<close>

definition split_ws :: "string \<Rightarrow> string list" where
  "split_ws s = findall_runs (\<lambda>c. \<not> isspace_char c) 1 s"

fun join :: "string \<Rightarrow> string list \<Rightarrow> string" where
  "join sep [] = []"
| "join sep [x] = x"
| "join sep (x # y # ys) = x @ sep @ join sep (y # ys)"

text \<open>\<open>s.split(sep, 1)[0]\<close>: what stands before the first \<open>sep\<close>, all of \<open>s\<close> when there is none.\<close>

primrec before_sep :: "string \<Rightarrow> string \<Rightarrow> string" where
  "before_sep sep [] = []"
| "before_sep sep (c # cs) = (if startswith (c # cs) sep then [] else c # before_sep sep cs)"

text \<open>
  The word characters of the pattern \<open>\b\<close>: letters, digits and other numeric characters,
  and the underscore. \<open>\b\<close> holds at a place where exactly one side is a word character.
\<close>

definition is_word_char :: "char \<Rightarrow> bool" where
  "is_word_char c \<longleftrightarrow>
     (let n = code_point c in
      is_az c \<or> is_AZ c \<or> is_09 c \<or> c = CHR ''_'' \<or>
      n \<in> {170, 178, 179, 181, 185, 186, 188, 189, 190} \<or>
      (192 \<le> n \<and> n \<noteq> 215 \<and> n \<noteq> 247))"

definition word_boundary :: "string \<Rightarrow> nat \<Rightarrow> bool" where
  "word_boundary s q \<longleftrightarrow>
     (0 < q \<and> q \<le> length s \<and> is_word_char (s ! (q - 1)))
       \<noteq> (q < length s \<and> is_word_char (s ! q))"

text \<open>
  \<open>re.search\<close> of a pattern with no anchor: the match at the leftmost place that has one.
  The first argument matches the pattern at the head of a string.
\<close>

fun re_search :: "(string \<Rightarrow> 'a option) \<Rightarrow> string \<Rightarrow> 'a option" where
  "re_search m [] = m []"
| "re_search m (c # cs) = (case m (c # cs) of Some r \<Rightarrow> Some r | None \<Rightarrow> re_search m cs)"

text \<open>A lower-case ASCII literal of a pattern compiled with \<open>re.IGNORECASE\<close>.\<close>

definition ci_startswith :: "string \<Rightarrow> string \<Rightarrow> bool" where
  "ci_startswith s lit \<longleftrightarrow> lower (take (length lit) s) = lit"

definition is_hex :: "char \<Rightarrow> bool" where
  "is_hex c \<longleftrightarrow>
     is_09 c \<or> (65 \<le> code_point c \<and> code_point c \<le> 70)
       \<or> (97 \<le> code_point c \<and> code_point c \<le> 102)"

definition hex_value :: "char \<Rightarrow> nat" where
  "hex_value c =
     (if is_09 c then code_point c - 48
      else if is_AZ c then code_point c - 55 else code_point c - 87)"

definition is_ascii :: "char \<Rightarrow> bool" where
  "is_ascii c \<longleftrightarrow> code_point c < 128"

subsection \<open>urllib.parse.unquote\<close>

text \<open>
  The library's percent-decoding. \<open>unquote_to_bytes\<close> turns each \<open>%\<close> followed by two hex
  digits into that byte and leaves any other \<open>%\<close> alone. \<open>unquote\<close> decodes each maximal
  ASCII run of its argument that way and reads the bytes as UTF-8; whatever is not
  ASCII stays. Bytes below 128 are their own characters; how a run holding a byte
  from 128 on is read (\<open>errors='replace'\<close>) is the parameter \<open>other\<close>.
\<close>

fun unquote_to_bytes :: "string \<Rightarrow> string" where
  "unquote_to_bytes (c # h1 # h2 # rest) =
     (if c = CHR ''%'' \<and> is_hex h1 \<and> is_hex h2
      then char_of (16 * hex_value h1 + hex_value h2) # unquote_to_bytes rest
      else c # unquote_to_bytes (h1 # h2 # rest))"
| "unquote_to_bytes cs = cs"

definition utf8_decode :: "(string \<Rightarrow> string) \<Rightarrow> string \<Rightarrow> string" where
  "utf8_decode other bs = (if list_all is_ascii bs then bs else other bs)"

function unquote_runs :: "(string \<Rightarrow> string) \<Rightarrow> string \<Rightarrow> string" where
  "unquote_runs other [] = []"
| "unquote_runs other (c # cs) =
     (if is_ascii c
      then utf8_decode other (unquote_to_bytes (c # takeWhile is_ascii cs))
             @ unquote_runs other (dropWhile is_ascii cs)
      else (c # takeWhile (\<lambda>x. \<not> is_ascii x) cs)
             @ unquote_runs other (dropWhile (\<lambda>x. \<not> is_ascii x) cs))"
  by pat_completeness auto
termination
  by (relation "measure (\<lambda>(other, s). length s)")
    (auto simp: less_Suc_eq_le length_dropWhile_le)

definition unquote :: "(string \<Rightarrow> string) \<Rightarrow> string \<Rightarrow> string" where
  "unquote other s = (if CHR ''%'' \<notin> set s then s else unquote_runs other s)"

section \<open>models.py\<close>

record TriageRequest =
  sender_email :: string
  stream :: "string option"
  topic :: "string option"
  incident_text :: string
  thread_context :: "string list"

section \<open>state.py\<close>

record IncidentRecord =
  inc_stream :: "string option"
  inc_topic :: "string option"
  last_summary :: "string option"
  last_request :: "TriageRequest option"
  history :: "string list"

text \<open>\<open>IncidentRecord.update\<close>: overwrite the last summary and request, append to the history.\<close>

definition update :: "IncidentRecord \<Rightarrow> string \<Rightarrow> TriageRequest \<Rightarrow> IncidentRecord" where
  "update r summary request =
     r\<lparr>last_summary := Some summary, last_request := Some request,
       history := history r @ [summary]\<rparr>"

text \<open>
  \<open>IncidentStore\<close>. The records are objects that callers hold by reference and mutate,
  so the store is an explicit heap: \<open>objects\<close> lists the \<open>IncidentRecord\<close> instances
  created so far, a reference is an index into it, and \<open>incidents\<close> is the dictionary
  \<open>_incidents\<close> from key to reference, in insertion order. Every operation runs under
  the store's lock, so each is one atomic step.
\<close>

type_synonym ref = nat

record IncidentStore =
  incidents :: "(string \<times> ref) list"
  objects :: "IncidentRecord list"

definition empty_store :: IncidentStore where
  "empty_store = \<lparr>incidents = [], objects = []\<rparr>"

definition key_of :: "string option \<Rightarrow> string option \<Rightarrow> string" where
  "key_of s t = py_or s ''dm'' @ ''::'' @ py_or t ''general''"

definition get_or_create :: "IncidentStore \<Rightarrow> TriageRequest \<Rightarrow> ref \<times> IncidentStore" where
  "get_or_create st request =
     (let key = key_of (stream request) (topic request) in
      case map_of (incidents st) key of
        Some r \<Rightarrow> (r, st)
      | None \<Rightarrow>
          (length (objects st),
           st\<lparr>incidents := incidents st @ [(key, length (objects st))],
              objects := objects st @
                [\<lparr>inc_stream = stream request, inc_topic = topic request,
                  last_summary = None, last_request = None, history = []\<rparr>]\<rparr>))"

definition find :: "IncidentStore \<Rightarrow> string option \<Rightarrow> string option \<Rightarrow> ref option" where
  "find st s t = map_of (incidents st) (key_of s t)"

text \<open>\<open>incident.update(summary, request)\<close> through a reference held by a caller.\<close>

definition update_at :: "IncidentStore \<Rightarrow> ref \<Rightarrow> string \<Rightarrow> TriageRequest \<Rightarrow> IncidentStore" where
  "update_at st r summary request =
     (if r < length (objects st)
      then st\<lparr>objects := (objects st)[r := update (objects st ! r) summary request]\<rparr>
      else st)"

text \<open>
  What the program does to a store between two look-ups: further \<open>get_or_create\<close>
  calls, and updates of records through references.
\<close>

datatype store_op = GetOrCreate TriageRequest | Update ref string TriageRequest

fun apply_op :: "IncidentStore \<Rightarrow> store_op \<Rightarrow> IncidentStore" where
  "apply_op st (GetOrCreate q) = snd (get_or_create st q)"
| "apply_op st (Update r summary q) = update_at st r summary q"

definition run_ops :: "store_op list \<Rightarrow> IncidentStore \<Rightarrow> IncidentStore" where
  "run_ops ops st = fold (\<lambda>op s. apply_op s op) ops st"

text \<open>
  The stores the program builds: every key is bound once, no two keys share a reference,
  and every reference points at a record.
\<close>

definition store_ok :: "IncidentStore \<Rightarrow> bool" where
  "store_ok st \<longleftrightarrow>
     distinct (map fst (incidents st)) \<and> distinct (map snd (incidents st)) \<and>
     list_all (\<lambda>(k, r). r < length (objects st)) (incidents st)"

text \<open>Two threads of one channel: no topic, and the topic named \<open>general\<close>.\<close>

definition req_ops_none :: TriageRequest where
  "req_ops_none = \<lparr>sender_email = ''a@x'', stream = Some ''ops'', topic = None,
     incident_text = ''db down'', thread_context = []\<rparr>"

definition req_ops_general :: TriageRequest where
  "req_ops_general = \<lparr>sender_email = ''b@x'', stream = Some ''ops'', topic = Some ''general'',
     incident_text = ''cache slow'', thread_context = []\<rparr>"

definition req_ops_empty :: TriageRequest where
  "req_ops_empty = \<lparr>sender_email = ''c@x'', stream = Some ''ops'', topic = Some '''',
     incident_text = ''queue stuck'', thread_context = []\<rparr>"

definition req_ops_deploy :: TriageRequest where
  "req_ops_deploy = \<lparr>sender_email = ''b@x'', stream = Some ''ops'', topic = Some ''deploy'',
     incident_text = ''cache slow'', thread_context = []\<rparr>"

section \<open>Keyword extraction\<close>

text \<open>
  A \<open>Counter\<close> is a dictionary in insertion order: a list of tokens with their counts.
  \<open>counts[token] += 1\<close> bumps the token's entry or appends a new one.
\<close>

fun counter_add :: "string \<Rightarrow> (string \<times> nat) list \<Rightarrow> (string \<times> nat) list" where
  "counter_add t [] = [(t, 1)]"
| "counter_add t ((k, n) # kvs) =
     (if k = t then (k, n + 1) # kvs else (k, n) # counter_add t kvs)"

text \<open>
  \<open>Counter.most_common(n)\<close>: the \<open>n\<close> entries with the largest counts, entries of
  equal count in the order the dictionary holds them (a stable sort); none when
  \<open>n\<close> is not positive.
\<close>

definition most_common :: "int \<Rightarrow> (string \<times> nat) list \<Rightarrow> (string \<times> nat) list" where
  "most_common n counts =
     (if n \<le> 0 then [] else take (nat n) (sort_key (\<lambda>kv. - int (snd kv)) counts))"

subsection \<open>triage.py\<close>

definition triage_STOP_WORDS :: "string list" where
  "triage_STOP_WORDS =
     [''probabl'', ''triage'', ''issue'', ''issues'', ''please'', ''thanks'', ''thank'',
      ''hello'', ''hey'', ''team'', ''update'', ''updated'', ''cc'', ''clarisights'']"

text \<open>\<open>KEYWORD_LIMIT\<close> is read from the environment; this is its default.\<close>

definition KEYWORD_LIMIT_default :: int where
  "KEYWORD_LIMIT_default = 12"

text \<open>\<open>TOKEN_RE = [a-z0-9_-]{2,}\<close>\<close>

definition token_char :: "char \<Rightarrow> bool" where
  "token_char c \<longleftrightarrow> is_az c \<or> is_09 c \<or> c = CHR ''_'' \<or> c = CHR ''-''"

definition TOKEN_RE_findall :: "string \<Rightarrow> string list" where
  "TOKEN_RE_findall s = findall_runs token_char 2 s"

definition triage_count_tokens :: "string list \<Rightarrow> (string \<times> nat) list" where
  "triage_count_tokens tokens =
     fold (\<lambda>token counts.
             if token \<in> set triage_STOP_WORDS then counts
             else if isdigit token then counts
             else counter_add token counts)
       tokens []"

definition triage_extract_keywords :: "int \<Rightarrow> string \<Rightarrow> string list" where
  "triage_extract_keywords keyword_limit text =
     map fst (most_common keyword_limit (triage_count_tokens (TOKEN_RE_findall (lower text))))"

subsection \<open>analyzer.py\<close>

definition analyzer_STOP_WORDS :: "string list" where
  "analyzer_STOP_WORDS =
     [''the'', ''this'', ''that'', ''have'', ''error'', ''issue'', ''with'', ''when'',
      ''from'', ''user'', ''users'', ''request'', ''requests'', ''failed'', ''failing'',
      ''frontend'', ''backend'', ''prod'', ''production'']"

text \<open>
  The loop of \<open>_extract_keywords\<close>: a token is skipped when it is a stop word or already
  kept; the loop breaks as soon as \<open>limit\<close> keywords are kept.
\<close>

fun collect_keywords :: "int \<Rightarrow> string list \<Rightarrow> string list \<Rightarrow> string list" where
  "collect_keywords limit kws [] = kws"
| "collect_keywords limit kws (token # tokens) =
     (if token \<in> set analyzer_STOP_WORDS then collect_keywords limit kws tokens
      else if token \<in> set kws then collect_keywords limit kws tokens
      else if limit \<le> int (length (kws @ [token])) then kws @ [token]
      else collect_keywords limit (kws @ [token]) tokens)"

text \<open>The pattern is \<open>[a-zA-Z]{4,}\<close>, applied to the lowered text.\<close>

definition analyzer_extract_keywords :: "int \<Rightarrow> string \<Rightarrow> string list" where
  "analyzer_extract_keywords limit text =
     collect_keywords limit [] (findall_runs (\<lambda>c. is_az c \<or> is_AZ c) 4 (lower text))"

subsection \<open>What the specification says of a keyword list\<close>

text \<open>
  The tokens that survive each extractor's filters, in text order; the place of a
  token's first appearance; and the ranking the specification describes: every
  surviving token once, by descending frequency, ties by first appearance.
\<close>

definition triage_surviving :: "string \<Rightarrow> string list" where
  "triage_surviving text =
     filter (\<lambda>t. t \<notin> set triage_STOP_WORDS \<and> \<not> isdigit t) (TOKEN_RE_findall (lower text))"

definition analyzer_surviving :: "string \<Rightarrow> string list" where
  "analyzer_surviving text =
     filter (\<lambda>t. t \<notin> set analyzer_STOP_WORDS)
       (findall_runs (\<lambda>c. is_az c \<or> is_AZ c) 4 (lower text))"

definition first_index :: "'a list \<Rightarrow> 'a \<Rightarrow> nat" where
  "first_index xs x = length (takeWhile (\<lambda>y. y \<noteq> x) xs)"

definition ranked :: "string list \<Rightarrow> string list" where
  "ranked toks =
     sort_key (\<lambda>t. (- int (count_list toks t), first_index toks t)) (remdups toks)"

text \<open>The distinct elements of a list in the order of their first appearance.\<close>

fun first_seen :: "'a list \<Rightarrow> 'a list" where
  "first_seen [] = []"
| "first_seen (x # xs) = x # first_seen (filter (\<lambda>y. y \<noteq> x) xs)"

section \<open>main.py: message intake\<close>

subsection \<open>Flattening markup\<close>

text \<open>
  \<open>re.sub(r"<[^>]+>", " ", text)\<close>: a \<open><\<close>, at least one character that is not \<open>>\<close>, and
  the \<open>>\<close> that follows become one space.
\<close>

function sub_tags :: "string \<Rightarrow> string" where
  "sub_tags [] = []"
| "sub_tags (c # cs) =
     (if c = CHR ''<'' \<and> takeWhile (\<lambda>x. x \<noteq> CHR ''>'') cs \<noteq> []
           \<and> dropWhile (\<lambda>x. x \<noteq> CHR ''>'') cs \<noteq> []
      then CHR '' '' # sub_tags (drop 1 (dropWhile (\<lambda>x. x \<noteq> CHR ''>'') cs))
      else c # sub_tags cs)"
  by pat_completeness auto
termination
  by (relation "measure length")
    (auto simp: less_Suc_eq_le intro: le_trans [OF diff_le_self length_dropWhile_le])

text \<open>
  \<open>_plain_text\<close>. \<open>html.unescape\<close> is the library's and comes as the parameter
  \<open>unescape\<close>; a missing or \<open>None\<close> content is the empty string.
\<close>

definition plain_text :: "(string \<Rightarrow> string) \<Rightarrow> string option \<Rightarrow> string" where
  "plain_text unescape content =
     join '' '' (split_ws (sub_tags (unescape (py_or content []))))"

subsection \<open>Thread back-references\<close>

text \<open>\<open>re.sub(r"\.([0-9A-Fa-f]{2})", repl, encoded)\<close> with \<open>repl\<close> a \<open>%\<close> before the two digits.\<close>

fun dot_to_percent :: "string \<Rightarrow> string" where
  "dot_to_percent (c # h1 # h2 # rest) =
     (if c = CHR ''.'' \<and> is_hex h1 \<and> is_hex h2
      then CHR ''%'' # h1 # h2 # dot_to_percent rest
      else c # dot_to_percent (h1 # h2 # rest))"
| "dot_to_percent cs = cs"

definition decode_url_component :: "(string \<Rightarrow> string) \<Rightarrow> string \<Rightarrow> string" where
  "decode_url_component other encoded = unquote other (dot_to_percent encoded)"

text \<open>
  The three patterns, each matched at the head of a string. No part of them can match
  in two ways: every repetition is a maximal run of one class and is followed by a
  character outside the class.
  \<open>THREAD_LINK_RE\<close> is \<open>#narrow/channel/(\d+)-([^/]+)/topic/([^\s)]+)\<close>, ignoring case.
\<close>

definition THREAD_LINK_RE_match :: "string \<Rightarrow> (string \<times> string) option" where
  "THREAD_LINK_RE_match s =
     (if \<not> ci_startswith s ''#narrow/channel/'' then None
      else let r1 = drop 16 s; r2 = dropWhile is_09 r1 in
        if takeWhile is_09 r1 = [] \<or> \<not> startswith r2 ''-'' then None
        else let r3 = drop 1 r2;
                 stream_slug = takeWhile (\<lambda>c. c \<noteq> CHR ''/'') r3;
                 r4 = dropWhile (\<lambda>c. c \<noteq> CHR ''/'') r3 in
          if stream_slug = [] \<or> \<not> ci_startswith r4 ''/topic/'' then None
          else let topic_g = takeWhile (\<lambda>c. \<not> isspace_char c \<and> c \<noteq> CHR '')'') (drop 7 r4) in
            if topic_g = [] then None else Some (stream_slug, topic_g))"

text \<open>\<open>THREAD_LABEL_RE\<close> is \<open>\[#([^>\]]+)\s*>\<close>.\<close>

definition THREAD_LABEL_RE_match :: "string \<Rightarrow> string option" where
  "THREAD_LABEL_RE_match s =
     (if \<not> startswith s ''[#'' then None
      else let label = takeWhile (\<lambda>c. c \<noteq> CHR ''>'' \<and> c \<noteq> CHR '']'') (drop 2 s);
               r = dropWhile (\<lambda>c. c \<noteq> CHR ''>'' \<and> c \<noteq> CHR '']'') (drop 2 s) in
        if label = [] \<or> \<not> startswith r ''>'' then None else Some label)"

text \<open>\<open>MANUAL_THREAD_RE\<close> is \<open>#\*\*([^>]+)>([^\*]+)\*\*\<close>.\<close>

definition MANUAL_THREAD_RE_match :: "string \<Rightarrow> (string \<times> string) option" where
  "MANUAL_THREAD_RE_match s =
     (if \<not> startswith s ''#**'' then None
      else let stream_g = takeWhile (\<lambda>c. c \<noteq> CHR ''>'') (drop 3 s);
               r1 = dropWhile (\<lambda>c. c \<noteq> CHR ''>'') (drop 3 s) in
        if stream_g = [] \<or> r1 = [] then None
        else let topic_g = takeWhile (\<lambda>c. c \<noteq> CHR ''*'') (drop 1 r1);
                 r2 = dropWhile (\<lambda>c. c \<noteq> CHR ''*'') (drop 1 r1) in
          if topic_g = [] \<or> \<not> startswith r2 ''**'' then None
          else Some (stream_g, topic_g))"

definition extract_thread_reference ::
  "(string \<Rightarrow> string) \<Rightarrow> string \<Rightarrow> string \<Rightarrow> (string \<times> string) option" where
  "extract_thread_reference other raw_content plain_content =
     (case re_search THREAD_LINK_RE_match raw_content of
        None \<Rightarrow>
          (case re_search MANUAL_THREAD_RE_match plain_content of
             Some (stream_g, topic_g) \<Rightarrow> Some (strip stream_g, strip topic_g)
           | None \<Rightarrow> None)
      | Some (stream_slug, topic_raw) \<Rightarrow>
          (let topic_part = before_sep ''/near/'' topic_raw;
               topic_d = decode_url_component other topic_part;
               stream_name =
                 (case re_search THREAD_LABEL_RE_match plain_content of
                    Some label \<Rightarrow> strip label
                  | None \<Rightarrow> decode_url_component other stream_slug);
               stream_name = (if stream_name = [] then stream_slug else stream_name)
           in Some (stream_name, topic_d)))"

subsection \<open>Commands\<close>

definition COMMAND_ALIASES :: "(string \<times> string list) list" where
  "COMMAND_ALIASES =
     [(''status'', [''status'', ''triage status'', ''status?'', ''show status'']),
      (''rerun'', [''rerun'', ''rerun analysis'', ''rerun triage'', ''next steps'',
                   ''next-steps'']),
      (''product'', [''/product'', ''product''])]"

text \<open>
  \<open>re.search(r"(^|\s)/product\b", lowered)\<close>: the match starts at 0 with \<open>/product\<close>
  there, or at a white-space character with \<open>/product\<close> right after it; the result is
  the leftmost start.
\<close>

definition product_match_at :: "string \<Rightarrow> nat \<Rightarrow> bool" where
  "product_match_at s p \<longleftrightarrow>
     (p = 0 \<and> startswith s ''/product'' \<and> word_boundary s 8) \<or>
     (p < length s \<and> isspace_char (s ! p) \<and> startswith (drop (Suc p) s) ''/product''
        \<and> word_boundary s (p + 9))"

definition product_search :: "string \<Rightarrow> nat option" where
  "product_search s = List.find (product_match_at s) [0..<Suc (length s)]"

text \<open>The two loops over the alias table; \<open>Some\<close> is a \<open>return\<close> from inside them.\<close>

fun match_aliases ::
  "string \<Rightarrow> string \<Rightarrow> string \<Rightarrow> string list \<Rightarrow> (string option \<times> string) option" where
  "match_aliases text lowered command [] = None"
| "match_aliases text lowered command (alias # aliases) =
     (if lowered = lower alias then Some (Some command, [])
      else if startswith lowered (lower alias @ '' '')
      then Some (Some command, strip (slice_from (int (length alias)) text))
      else match_aliases text lowered command aliases)"

fun match_commands ::
  "string \<Rightarrow> string \<Rightarrow> (string \<times> string list) list \<Rightarrow> (string option \<times> string) option" where
  "match_commands text lowered [] = None"
| "match_commands text lowered ((command, aliases) # rest) =
     (case match_aliases text lowered command aliases of
        Some r \<Rightarrow> Some r
      | None \<Rightarrow> match_commands text lowered rest)"

definition extract_command :: "string \<Rightarrow> string option \<times> string" where
  "extract_command plain_content =
     (let text = strip plain_content; lowered = lower text in
      case product_search lowered of
        Some start \<Rightarrow>
          (let idx = str_find lowered ''/product'' start in
           (Some ''product'', strip (slice_from (idx + int (length ''/product'')) text)))
      | None \<Rightarrow>
          (case match_commands text lowered COMMAND_ALIASES of
             Some r \<Rightarrow> r
           | None \<Rightarrow> (None, [])))"

subsection \<open>Thread context\<close>

text \<open>
  An exception is kept as its text, what \<open>str(exc)\<close> gives. The classes caught are
  those under \<open>Exception\<close>.
\<close>

type_synonym exn = string

text \<open>
  A message of the thread as the transport returns it, with the keys the handler
  reads; \<open>None\<close> is a missing key. The transport's \<open>get_messages\<close> is a collaborator:
  a function from the request to the response. The value under \<open>messages\<close> is a list of
  messages, or the null value, which \<open>result.get("messages", [])\<close> hands on as it is.
\<close>

record thread_message =
  msg_content :: "string option"
  msg_sender_full_name :: "string option"
  msg_sender_email :: "string option"

record get_messages_params =
  anchor :: string
  num_before :: int
  num_after :: int
  narrow :: "(string \<times> string) list"

datatype messages_value = Messages_null | Messages_list "thread_message list"

record get_messages_result =
  gm_result :: "string option"
  gm_msg :: "string option"
  gm_messages :: "messages_value option"

definition fetch_thread_messages ::
  "(get_messages_params \<Rightarrow> get_messages_result) \<Rightarrow> string \<Rightarrow> string \<Rightarrow> int
     \<Rightarrow> messages_value" where
  "fetch_thread_messages get_messages stream_name topic_name n =
     (let params = \<lparr>anchor = ''newest'', num_before = max 1 n, num_after = 0,
                     narrow = [(''stream'', stream_name), (''topic'', topic_name)]\<rparr>;
          result = get_messages params
      in if gm_result result \<noteq> Some ''success'' then Messages_list []
         else case gm_messages result of None \<Rightarrow> Messages_list [] | Some v \<Rightarrow> v)"

text \<open>
  \<open>msg.get("sender_full_name") or msg.get("sender_email")\<close>, as the f-string prints it:
  a missing address prints as \<open>None\<close>.
\<close>

definition author_text :: "thread_message \<Rightarrow> string" where
  "author_text m =
     (let email = (case msg_sender_email m of None \<Rightarrow> ''None'' | Some e \<Rightarrow> e) in
      case msg_sender_full_name m of
        None \<Rightarrow> email
      | Some n \<Rightarrow> (if n = [] then email else n))"

definition thread_line :: "(string \<Rightarrow> string) \<Rightarrow> thread_message \<Rightarrow> string" where
  "thread_line unescape m = author_text m @ '': '' @ plain_text unescape (msg_content m)"

text \<open>The loop over \<open>thread_messages[-10:]\<close>.\<close>

definition thread_lines_of :: "(string \<Rightarrow> string) \<Rightarrow> thread_message list \<Rightarrow> string list" where
  "thread_lines_of unescape thread_messages =
     fold (\<lambda>m thread_lines.
             if plain_text unescape (msg_content m) = [] then thread_lines
             else thread_lines @ [thread_line unescape m])
       (slice_from (- 10) thread_messages) []"

text \<open>
  The thread context of \<open>handle_incoming_message\<close>, from the resolved thread. Slicing
  the null value raises \<open>TypeError\<close>.
\<close>

definition none_not_subscriptable :: exn where
  "none_not_subscriptable =
     [CHR 0x27] @ ''NoneType'' @ [CHR 0x27] @ '' object is not subscriptable''"

definition thread_context_of ::
  "(string \<Rightarrow> string) \<Rightarrow> (get_messages_params \<Rightarrow> get_messages_result)
     \<Rightarrow> string option \<Rightarrow> string option \<Rightarrow> exn + string list" where
  "thread_context_of unescape get_messages fetch_stream fetch_topic =
     (case (fetch_stream, fetch_topic) of
        (Some s, Some t) \<Rightarrow>
          (if s \<noteq> [] \<and> t \<noteq> []
           then (case fetch_thread_messages get_messages s t 25 of
                   Messages_null \<Rightarrow> Inl none_not_subscriptable
                 | Messages_list thread_messages \<Rightarrow>
                     Inr (thread_lines_of unescape thread_messages))
           else Inr [])
      | _ \<Rightarrow> Inr [])"

text \<open>
  What the specification says of the context: the last 10 of the thread's messages
  that are not empty once flattened.
\<close>

definition last_nonempty_lines :: "(string \<Rightarrow> string) \<Rightarrow> thread_message list \<Rightarrow> string list" where
  "last_nonempty_lines unescape thread_messages =
     map (thread_line unescape)
       (slice_from (- 10)
          (filter (\<lambda>m. plain_text unescape (msg_content m) \<noteq> []) thread_messages))"

text \<open>A thread of eleven messages, the newest of them an empty paragraph.\<close>

definition msg_alert :: thread_message where
  "msg_alert = \<lparr>msg_content = Some ''<p>disk full</p>'', msg_sender_full_name = Some ''Ann'',
     msg_sender_email = Some ''ann@x''\<rparr>"

definition msg_blank :: thread_message where
  "msg_blank = \<lparr>msg_content = Some ''<p></p>'', msg_sender_full_name = Some ''Bob'',
     msg_sender_email = Some ''bob@x''\<rparr>"

definition thread_eleven :: "thread_message list" where
  "thread_eleven = replicate 10 msg_alert @ [msg_blank]"

text \<open>A transport that reports an error for every request.\<close>

definition transport_error :: "get_messages_params \<Rightarrow> get_messages_result" where
  "transport_error p =
     \<lparr>gm_result = Some ''error'', gm_msg = Some ''Invalid narrow'', gm_messages = None\<rparr>"

text \<open>A transport that returns the thread of eleven messages for every request.\<close>

definition transport_eleven :: "get_messages_params \<Rightarrow> get_messages_result" where
  "transport_eleven p =
     \<lparr>gm_result = Some ''success'', gm_msg = None,
      gm_messages = Some (Messages_list thread_eleven)\<rparr>"

text \<open>A transport that answers success with the null value for the messages.\<close>

definition transport_null :: "get_messages_params \<Rightarrow> get_messages_result" where
  "transport_null p =
     \<lparr>gm_result = Some ''success'', gm_msg = None, gm_messages = Some Messages_null\<rparr>"

section \<open>The triage pipeline\<close>

subsection \<open>More text\<close>

definition nl :: string where
  "nl = [CHR 0x0A]"

text \<open>\<open>str(n)\<close> of an integer, as an f-string prints it.\<close>

function str_nat :: "nat \<Rightarrow> string" where
  "str_nat n =
     (if n < 10 then [char_of (48 + n)] else str_nat (n div 10) @ [char_of (48 + n mod 10)])"
  by pat_completeness auto
termination
  by (relation "measure id") auto

definition str_int :: "int \<Rightarrow> string" where
  "str_int i = (if i < 0 then CHR ''-'' # str_nat (nat (- i)) else str_nat (nat i))"

text \<open>\<open>s.split(sep)\<close> on one character: the parts between the separators, at least one.\<close>

primrec split_on :: "char \<Rightarrow> string \<Rightarrow> string list" where
  "split_on sep [] = [[]]"
| "split_on sep (c # cs) =
     (if c = sep then [] # split_on sep cs
      else (case split_on sep cs of p # ps \<Rightarrow> (c # p) # ps | [] \<Rightarrow> [[c]]))"

text \<open>\<open>[x] if x else []\<close> on an optional string.\<close>

definition if_given :: "string option \<Rightarrow> string list" where
  "if_given x = (case x of None \<Rightarrow> [] | Some s \<Rightarrow> (if s = [] then [] else [s]))"

subsection \<open>Data and collaborators\<close>

text \<open>repo.py, sourcegraph_client.py and tools.py: the records.\<close>

record RepoMatch =
  path :: string
  line :: int
  preview :: string

record RepoCommit =
  sha :: string
  author :: string
  date :: string
  message :: string

record SourcegraphMatch =
  sg_repo :: string
  sg_path :: string
  sg_line :: int
  sg_preview :: string

record ToolResult =
  description :: string
  content :: string

text \<open>
  An incoming message with the keys \<open>send_reply\<close> reads (\<open>None\<close> is a missing key): the
  recipient of a stream message is the stream's name, that of a private message a list
  of user dictionaries, each with or without an \<open>email\<close>.
\<close>

datatype recipient = Recipient_dict "string option" | Recipient_other

datatype display_recipient = To_stream string | To_users "recipient list"

record zulip_message =
  in_type :: "string option"
  in_display_recipient :: "display_recipient option"
  in_subject :: "string option"
  in_sender_email :: "string option"

datatype send_to = To_display display_recipient | To_emails "string option list"

record send_request =
  sr_type :: string
  sr_content :: string
  sr_to :: send_to
  sr_topic :: "string option"

record send_response =
  rs_result :: "string option"

text \<open>
  The collaborators are outside the program: the remote code search, the local
  pattern search, file reads and the commit log of a repository, the language-model
  process and the chat transport. Each is a function that may answer differently
  every time: it is given the calls made so far, and every call is logged. A
  collaborator either returns or raises. \<open>world\<close> holds them with the configuration
  read at start-up: the repository names of the tool registry and of the analyzer,
  whether the remote search and the language model are enabled, the commit toggle,
  the keyword limit and the bot's address.
\<close>

datatype call =
    Sourcegraph_search string string "string list option" int
  | Repo_search string string int
  | Repo_read_file string string int int
  | Repo_recent_commits string int
  | Codex_exec string
  | Zulip_send_message send_request

record world =
  registry_repos :: "string list"
  analyzer_repos :: "string list"
  sourcegraph_enabled :: bool
  include_commits :: bool
  keyword_limit :: int
  llm_enabled :: bool
  zulip_email :: string
  sourcegraph_search ::
    "call list \<Rightarrow> string \<Rightarrow> string \<Rightarrow> string list option \<Rightarrow> int \<Rightarrow> exn + SourcegraphMatch list"
  repo_search :: "call list \<Rightarrow> string \<Rightarrow> string \<Rightarrow> int \<Rightarrow> exn + RepoMatch list"
  repo_read_file :: "call list \<Rightarrow> string \<Rightarrow> string \<Rightarrow> int \<Rightarrow> int \<Rightarrow> exn + string option"
  repo_recent_commits :: "call list \<Rightarrow> string \<Rightarrow> int \<Rightarrow> exn + RepoCommit list"
  codex_exec :: "call list \<Rightarrow> string \<Rightarrow> exn + string option"
  send_message :: "call list \<Rightarrow> send_request \<Rightarrow> exn + send_response"

text \<open>
  The state the pipeline changes: the log of calls, the registry's search cache (the
  dictionary of \<open>RepoCache\<close>) and the incident store.
\<close>

record state =
  calls :: "call list"
  search_cache :: "string \<times> string \<Rightarrow> RepoMatch list option"
  incident_store :: IncidentStore

text \<open>
  A piece of the program takes the state and returns a value or an exception, and the
  new state. \<open>andthen\<close> sequences two pieces and lets an exception pass; \<open>for_each\<close>
  is a \<open>for\<close> loop that carries what the loop builds.
\<close>

type_synonym 'a prog = "state \<Rightarrow> (exn + 'a) \<times> state"

definition ret :: "'a \<Rightarrow> 'a prog" where
  "ret x = (\<lambda>s. (Inr x, s))"

definition raise :: "exn \<Rightarrow> 'a prog" where
  "raise e = (\<lambda>s. (Inl e, s))"

definition andthen :: "'a prog \<Rightarrow> ('a \<Rightarrow> 'b prog) \<Rightarrow> 'b prog" where
  "andthen m f = (\<lambda>s. case m s of (Inl e, s') \<Rightarrow> (Inl e, s') | (Inr x, s') \<Rightarrow> f x s')"

definition call_out :: "call \<Rightarrow> (call list \<Rightarrow> exn + 'a) \<Rightarrow> 'a prog" where
  "call_out c answer = (\<lambda>s. (answer (calls s), s\<lparr>calls := calls s @ [c]\<rparr>))"

fun for_each :: "'a list \<Rightarrow> ('a \<Rightarrow> 'b \<Rightarrow> 'b prog) \<Rightarrow> 'b \<Rightarrow> 'b prog" where
  "for_each [] body acc = ret acc"
| "for_each (x # xs) body acc = andthen (body x acc) (for_each xs body)"

text \<open>A piece of the program that leaves the calls made so far in the log, in place.\<close>

definition grows :: "'a prog \<Rightarrow> bool" where
  "grows m \<longleftrightarrow> (\<forall>s. \<exists>more. calls (snd (m s)) = calls s @ more)"

subsection \<open>tools.py\<close>

text \<open>
  The registry finds a repository by name; \<open>list_repos\<close> gives the names, the keys of
  \<open>repo_map\<close>. \<open>search_code\<close> answers from the cache when the pair is there, and else
  asks the remote search when enabled, the local search when that gave nothing, and
  stores what it returns.
\<close>

definition list_repos :: "world \<Rightarrow> string list" where
  "list_repos w = first_seen (registry_repos w)"

definition cache_search :: "string \<Rightarrow> string \<Rightarrow> RepoMatch list \<Rightarrow> unit prog" where
  "cache_search repo keyword matches =
     (\<lambda>s. (Inr (), s\<lparr>search_cache := (search_cache s)((repo, keyword) \<mapsto> matches)\<rparr>))"

definition search_code ::
  "world \<Rightarrow> string \<Rightarrow> string \<Rightarrow> int \<Rightarrow> string list option \<Rightarrow> RepoMatch list prog" where
  "search_code w repo_name query limit directories =
     (if repo_name \<notin> set (registry_repos w) then ret []
      else (\<lambda>s.
        case search_cache s (repo_name, query) of
          Some cached \<Rightarrow> (Inr (slice_to limit cached), s)
        | None \<Rightarrow>
            andthen
              (if sourcegraph_enabled w
               then andthen
                      (call_out (Sourcegraph_search repo_name query directories limit)
                         (\<lambda>h. sourcegraph_search w h repo_name query directories limit))
                      (\<lambda>sg_matches.
                         ret (map (\<lambda>m. \<lparr>path = sg_path m, line = sg_line m,
                                         preview = sg_preview m\<rparr>) sg_matches))
               else ret [])
              (\<lambda>matches.
                 andthen
                   (if matches = []
                    then call_out (Repo_search repo_name query limit)
                           (\<lambda>h. repo_search w h repo_name query limit)
                    else ret matches)
                   (\<lambda>matches. andthen (cache_search repo_name query matches) (\<lambda>u. ret matches)))
              s))"

definition read_file :: "world \<Rightarrow> string \<Rightarrow> string \<Rightarrow> int \<Rightarrow> int \<Rightarrow> string option prog" where
  "read_file w repo_name p start end_line =
     (if repo_name \<notin> set (registry_repos w) then ret None
      else call_out (Repo_read_file repo_name p start end_line)
             (\<lambda>h. repo_read_file w h repo_name p start end_line))"

definition recent_commits :: "world \<Rightarrow> string \<Rightarrow> int \<Rightarrow> RepoCommit list prog" where
  "recent_commits w repo_name limit =
     (if repo_name \<notin> set (registry_repos w) then ret []
      else call_out (Repo_recent_commits repo_name limit)
             (\<lambda>h. repo_recent_commits w h repo_name limit))"

subsection \<open>triage.py: the orchestrator\<close>

record service_hints =
  hint_repos :: "string list"
  hint_runbook :: "string option"
  hint_directories :: "(string \<times> string list) list"

definition resolve_service_hints :: "world \<Rightarrow> string list \<Rightarrow> string option \<Rightarrow> service_hints" where
  "resolve_service_hints w kws topic_name =
     \<lparr>hint_repos = list_repos w, hint_runbook = None,
      hint_directories = map (\<lambda>repo. (repo, [])) (list_repos w)\<rparr>"

definition match_directory :: "RepoMatch \<Rightarrow> string" where
  "match_directory m =
     (case split_on CHR ''/'' (path m) of
        p # q # rest \<Rightarrow> p @ ''/'' @ q
      | [p] \<Rightarrow> p
      | [] \<Rightarrow> [])"

definition dynamic_directories ::
  "world \<Rightarrow> string \<Rightarrow> string list \<Rightarrow> int \<Rightarrow> string list prog" where
  "dynamic_directories w repo kws max_dirs =
     andthen
       (for_each kws
          (\<lambda>keyword counter.
             andthen (search_code w repo keyword 3 None)
               (\<lambda>matches.
                  ret (fold (\<lambda>m counter.
                               if match_directory m \<noteq> []
                               then counter_add (match_directory m) counter else counter)
                         matches counter)))
          [])
       (\<lambda>counter. ret (filter (\<lambda>d. d \<noteq> []) (map fst (most_common max_dirs counter))))"

definition gather :: "world \<Rightarrow> TriageRequest \<Rightarrow> ToolResult list prog" where
  "gather w request =
     (let aggregate_text =
            join '' '' ([incident_text request] @ thread_context request
                        @ if_given (topic request));
          kws = triage_extract_keywords (keyword_limit w) aggregate_text;
          hints = resolve_service_hints w kws (topic request)
      in andthen
           (for_each (hint_repos hints)
              (\<lambda>repo findings.
                 andthen
                   (case map_of (hint_directories hints) repo of
                      Some (d # ds) \<Rightarrow> ret (d # ds)
                    | _ \<Rightarrow> dynamic_directories w repo kws 5)
                   (\<lambda>allowed_dirs.
                      andthen
                        (for_each (if kws = [] then [''incident''] else kws)
                           (\<lambda>keyword findings.
                              andthen
                                (search_code w repo keyword 2
                                   (if allowed_dirs = [] then None else Some allowed_dirs))
                                (\<lambda>matches.
                                   for_each matches
                                     (\<lambda>m findings.
                                        if allowed_dirs \<noteq> [] \<and>
                                           \<not> list_ex (\<lambda>prefix. startswith (path m) prefix) allowed_dirs
                                        then ret findings
                                        else andthen
                                               (read_file w repo (path m) (line m - 3) (line m + 3))
                                               (\<lambda>snippet.
                                                  ret (findings @
                                                    [\<lparr>description =
                                                        repo @ '':'' @ path m @ '':'' @ str_int (line m),
                                                      content =
                                                        strip (py_or snippet (preview m))\<rparr>])))
                                     findings))
                           findings)
                        (\<lambda>findings.
                           if include_commits w
                           then andthen (recent_commits w repo 2)
                                  (\<lambda>commits.
                                     ret (findings @
                                       map (\<lambda>c. \<lparr>description = repo @ '' recent commit '' @ sha c,
                                                  content = date c @ '' '' @ author c @ '': ''
                                                            @ message c\<rparr>) commits))
                           else ret findings)))
              [])
           (\<lambda>findings.
              ret (findings @
                     map (\<lambda>runbook. \<lparr>description = ''Runbook hint'',
                                      content = ''Consult runbook: '' @ runbook\<rparr>)
                       (if_given (hint_runbook hints)))))"

subsection \<open>llm.py\<close>

text \<open>
  The prompt, and \<open>LLMAgent.run\<close>: nothing when the tier is disabled or the process
  fails, else what the process wrote, stripped, and nothing when that is empty.
\<close>

definition llm_prompt :: "TriageRequest \<Rightarrow> ToolResult list \<Rightarrow> string" where
  "llm_prompt request tool_results =
     join nl
       ([''You are an engineering on-call assistant responding over Zulip. Use the evidence below to propose the most likely root cause, explicitly call out unknowns, and ask for clarification if critical data is missing.'',
         [], ''Incident:'', incident_text request, []]
        @ (if thread_context request \<noteq> []
           then [''Thread context:''] @ slice_from (- 8) (thread_context request) @ [[]]
           else [])
        @ (if tool_results \<noteq> []
           then [''Evidence from tools:'']
                  @ map (\<lambda>r. description r @ nl @ content r @ nl) (slice_to 5 tool_results)
           else [])
        @ [''Respond in Markdown with sections: **Finding** (state HIGH/MED/LOW confidence and justify it), **Evidence** (cite repo paths or runbooks), **Next steps**, and **Open questions** when you need more info. If confidence would be LOW, prefer to explain what additional data is needed before making a definitive claim.''])"

definition llm_run :: "world \<Rightarrow> TriageRequest \<Rightarrow> ToolResult list \<Rightarrow> string option prog" where
  "llm_run w request tool_results =
     (if \<not> llm_enabled w then ret None
      else andthen
             (call_out (Codex_exec (llm_prompt request tool_results))
                (\<lambda>h. codex_exec w h (llm_prompt request tool_results)))
             (\<lambda>output.
                ret (case output of
                       None \<Rightarrow> None
                     | Some text \<Rightarrow> (if strip text = [] then None else Some (strip text)))))"

subsection \<open>analyzer.py\<close>

record RepoFinding =
  finding_repo :: string
  finding_matches :: "RepoMatch list"
  finding_note :: string

definition not_located :: string where
  "not_located =
     ''I could not locate the local repos; please ensure they exist next to this project.''"

text \<open>
  The three characters the source has between the line number and the preview: the
  Latin-1 character of code point 0xE2, and two that lie outside Latin-1 (code points
  0x20AC and 0x201D) and stand here as their UTF-8 bytes.
\<close>

definition preview_separator :: string where
  "preview_separator = [CHR 0xE2, CHR 0xE2, CHR 0x82, CHR 0xAC, CHR 0xE2, CHR 0x80, CHR 0x9D]"

fun collect_matches :: "world \<Rightarrow> string \<Rightarrow> string list \<Rightarrow> RepoMatch list \<Rightarrow> RepoMatch list prog" where
  "collect_matches w repo [] matches = ret matches"
| "collect_matches w repo (keyword # rest) matches =
     andthen (call_out (Repo_search repo keyword 1) (\<lambda>h. repo_search w h repo keyword 1))
       (\<lambda>found.
          if 3 \<le> length (matches @ found) then ret (matches @ found)
          else collect_matches w repo rest (matches @ found))"

definition commit_note :: "RepoCommit list \<Rightarrow> string" where
  "commit_note commits =
     (case commits of
        last_c # older \<Rightarrow>
          ''latest commit '' @ sha last_c @ '' by '' @ author last_c @ '' on '' @ date last_c
            @ '': '' @ message last_c
      | [] \<Rightarrow> ''no matches and unable to read recent commits'')"

definition finding_lines :: "RepoFinding \<Rightarrow> string list" where
  "finding_lines f =
     [''* Repo `'' @ finding_repo f @ ''`'']
     @ map (\<lambda>m. ''  - '' @ path m @ '':'' @ str_int (line m) @ '' '' @ preview_separator
                  @ '' '' @ slice_to 160 (preview m))
         (finding_matches f)
     @ (if finding_note f \<noteq> [] then [''  - '' @ finding_note f] else [])"

definition report_lines :: "string list \<Rightarrow> RepoFinding list \<Rightarrow> string list" where
  "report_lines kws findings =
     [''Automated triage check'']
     @ [if kws \<noteq> [] then ''Keywords noticed: '' @ join '', '' kws
        else ''Keywords: (none detected)'']
     @ concat (map finding_lines findings)
     @ [[], ''_reply with `next steps` for additional guidance_'']"

definition analyze :: "world \<Rightarrow> string \<Rightarrow> string prog" where
  "analyze w text =
     (let kws = analyzer_extract_keywords 4 text in
      if analyzer_repos w = [] then ret not_located
      else andthen
             (for_each (analyzer_repos w)
                (\<lambda>repo findings.
                   andthen (collect_matches w repo kws [])
                     (\<lambda>matches.
                        andthen
                          (if matches = []
                           then andthen
                                  (call_out (Repo_recent_commits repo 1)
                                     (\<lambda>h. repo_recent_commits w h repo 1))
                                  (\<lambda>commits. ret (commit_note commits))
                           else ret [])
                          (\<lambda>note.
                             ret (findings @
                               [\<lparr>finding_repo = repo, finding_matches = matches,
                                 finding_note = note\<rparr>]))))
                [])
             (\<lambda>findings. ret (join nl (report_lines kws findings))))"

subsection \<open>triage.py: the service\<close>

definition combined_text :: "TriageRequest \<Rightarrow> string" where
  "combined_text request =
     join nl
       (filter (\<lambda>l. l \<noteq> [])
          ([strip (incident_text request)]
           @ (if thread_context request \<noteq> []
              then [''Thread context (latest '' @ str_nat (length (thread_context request))
                      @ '' messages):'']
                   @ thread_context request
              else [])))"

text \<open>
  \<open>TriageService.run\<close>. The service is built from an orchestrator, a language-model
  agent and an analyzer; \<open>run\<close> takes them as it takes them in the source, and
  \<open>triage_service_run\<close> is the service \<open>main.py\<close> builds.
\<close>

definition run ::
  "(TriageRequest \<Rightarrow> ToolResult list prog) \<Rightarrow> bool
     \<Rightarrow> (TriageRequest \<Rightarrow> ToolResult list \<Rightarrow> string option prog) \<Rightarrow> (string \<Rightarrow> string prog)
     \<Rightarrow> TriageRequest \<Rightarrow> string prog" where
  "run orchestrator_gather llm_agent_enabled llm_agent_run analyzer_analyze request =
     andthen (orchestrator_gather request)
       (\<lambda>tool_results.
          andthen
            (if llm_agent_enabled then llm_agent_run request tool_results else ret None)
            (\<lambda>llm_summary.
               if py_or llm_summary [] \<noteq> [] then ret (py_or llm_summary [])
               else analyzer_analyze (combined_text request)))"

definition triage_service_run :: "world \<Rightarrow> TriageRequest \<Rightarrow> string prog" where
  "triage_service_run w = run (gather w) (llm_enabled w) (llm_run w) (analyze w)"

subsection \<open>zulip_client.py and the worker task\<close>

text \<open>
  \<open>send_reply\<close> builds the request from the message, indexing some keys (a missing one
  raises \<open>KeyError\<close>), and hands it to the transport.
\<close>

definition key_error :: "string \<Rightarrow> exn" where
  "key_error k = [CHR 0x27] @ k @ [CHR 0x27]"

definition reply_request :: "world \<Rightarrow> zulip_message \<Rightarrow> string \<Rightarrow> exn + send_request" where
  "reply_request w m text =
     (case in_type m of
        None \<Rightarrow> Inl (key_error ''type'')
      | Some msg_type \<Rightarrow>
          if msg_type = ''stream''
          then (case in_display_recipient m of
                  None \<Rightarrow> Inl (key_error ''display_recipient'')
                | Some dr \<Rightarrow>
                    (case in_subject m of
                       None \<Rightarrow> Inl (key_error ''subject'')
                     | Some subj \<Rightarrow>
                         Inr \<lparr>sr_type = msg_type, sr_content = text, sr_to = To_display dr,
                              sr_topic = Some subj\<rparr>))
          else
            (case in_display_recipient m of
               Some (To_stream name) \<Rightarrow>
                 Inr \<lparr>sr_type = msg_type, sr_content = text,
                      sr_to = To_emails [in_sender_email m], sr_topic = None\<rparr>
             | Some (To_users recipients) \<Rightarrow>
                 (let wanted = filter (\<lambda>r. case r of
                                              Recipient_dict e \<Rightarrow> e \<noteq> Some (zulip_email w)
                                            | Recipient_other \<Rightarrow> False) recipients
                  in if list_ex (\<lambda>r. r = Recipient_dict None) wanted
                     then Inl (key_error ''email'')
                     else Inr \<lparr>sr_type = msg_type, sr_content = text,
                               sr_to = To_emails
                                 (if wanted = [] then [in_sender_email m]
                                  else map (\<lambda>r. case r of Recipient_dict e \<Rightarrow> e
                                                  | Recipient_other \<Rightarrow> None) wanted),
                               sr_topic = None\<rparr>)
             | None \<Rightarrow>
                 Inr \<lparr>sr_type = msg_type, sr_content = text,
                      sr_to = To_emails [in_sender_email m], sr_topic = None\<rparr>))"

text \<open>
  The keys of the message that \<open>send_reply\<close> indexes: the type; for a stream message the
  recipient and the subject; for any other message with a list of recipients, the
  address of every recipient dictionary (a recipient with no address differs from the
  bot's and is indexed).
\<close>

definition has_reply_keys :: "zulip_message \<Rightarrow> bool" where
  "has_reply_keys m =
     (case in_type m of
        None \<Rightarrow> False
      | Some msg_type \<Rightarrow>
          if msg_type = ''stream''
          then in_display_recipient m \<noteq> None \<and> in_subject m \<noteq> None
          else (case in_display_recipient m of
                  Some (To_users recipients) \<Rightarrow> Recipient_dict None \<notin> set recipients
                | _ \<Rightarrow> True))"

definition send_reply :: "world \<Rightarrow> zulip_message \<Rightarrow> string \<Rightarrow> send_response prog" where
  "send_reply w m text =
     (case reply_request w m text of
        Inl e \<Rightarrow> raise e
      | Inr request \<Rightarrow>
          call_out (Zulip_send_message request) (\<lambda>h. send_message w h request))"

text \<open>
  \<open>_run_triage_and_reply\<close>: the \<open>try\<close> around \<open>triage_service.run\<close> turns an exception
  into the failure summary; then the incident is updated and the reply sent.
\<close>

definition failure_summary :: "exn \<Rightarrow> string" where
  "failure_summary exc = ''Unable to run automated analysis: '' @ exc"

definition summary_of :: "exn + string \<Rightarrow> string" where
  "summary_of outcome = (case outcome of Inr text \<Rightarrow> text | Inl exc \<Rightarrow> failure_summary exc)"

definition run_triage_and_reply ::
  "world \<Rightarrow> zulip_message \<Rightarrow> TriageRequest \<Rightarrow> ref \<Rightarrow> unit prog" where
  "run_triage_and_reply w m triage_request incident =
     (\<lambda>s. case triage_service_run w triage_request s of
             (outcome, s1) \<Rightarrow>
               andthen (send_reply w m (summary_of outcome)) (\<lambda>response. ret ())
                 (s1\<lparr>incident_store :=
                       update_at (incident_store s1) incident (summary_of outcome)
                         triage_request\<rparr>))"

subsection \<open>What the specification says of the cache, and sample worlds\<close>

text \<open>The matches the cache holds for a pair, and a run of further searches.\<close>

definition stored_matches :: "state \<Rightarrow> string \<Rightarrow> string \<Rightarrow> RepoMatch list" where
  "stored_matches s repo keyword =
     (case search_cache s (repo, keyword) of None \<Rightarrow> [] | Some cached \<Rightarrow> cached)"

datatype search_request = Search string string int "string list option"

fun run_search :: "world \<Rightarrow> search_request \<Rightarrow> state \<Rightarrow> state" where
  "run_search w (Search repo keyword limit directories) s =
     snd (search_code w repo keyword limit directories s)"

definition run_searches :: "world \<Rightarrow> search_request list \<Rightarrow> state \<Rightarrow> state" where
  "run_searches w reqs s = fold (run_search w) reqs s"

definition initial_state :: state where
  "initial_state = \<lparr>calls = [], search_cache = Map.empty, incident_store = empty_store\<rparr>"

definition quiet_world :: world where
  "quiet_world =
     \<lparr>registry_repos = [], analyzer_repos = [], sourcegraph_enabled = False,
      include_commits = False, keyword_limit = 12, llm_enabled = False,
      zulip_email = ''bot@x'',
      sourcegraph_search = (\<lambda>h repo keyword dirs limit. Inr []),
      repo_search = (\<lambda>h repo keyword limit. Inr []),
      repo_read_file = (\<lambda>h repo p a b. Inr None),
      repo_recent_commits = (\<lambda>h repo limit. Inr []),
      codex_exec = (\<lambda>h prompt. Inr None),
      send_message = (\<lambda>h request. Inr \<lparr>rs_result = Some ''success''\<rparr>)\<rparr>"

definition three_matches :: "RepoMatch list" where
  "three_matches =
     [\<lparr>path = ''app/a.rb'', line = 3, preview = ''timeout = 5''\<rparr>,
      \<lparr>path = ''app/a.rb'', line = 9, preview = ''raise Timeout''\<rparr>,
      \<lparr>path = ''lib/b.rb'', line = 1, preview = ''# timeout''\<rparr>]"

definition world_two_files :: world where
  "world_two_files =
     quiet_world\<lparr>registry_repos := [''adwyze''],
                 repo_search := (\<lambda>h repo keyword limit. Inr three_matches)\<rparr>"

definition one_match :: "RepoMatch list" where
  "one_match = [\<lparr>path = ''app/db.rb'', line = 7, preview = ''  pool timeout  ''\<rparr>]"

definition world_one_repo :: world where
  "world_one_repo =
     quiet_world\<lparr>registry_repos := [''adwyze''], analyzer_repos := [''adwyze''],
                 repo_search := (\<lambda>h repo keyword limit. Inr one_match)\<rparr>"

definition stream_message :: zulip_message where
  "stream_message = \<lparr>in_type = Some ''stream'', in_display_recipient = Some (To_stream ''ops''),
     in_subject = Some ''db'', in_sender_email = Some ''a@x''\<rparr>"

text \<open>The same message without its type.\<close>

definition untyped_message :: zulip_message where
  "untyped_message = stream_message\<lparr>in_type := None\<rparr>"

definition req_question :: TriageRequest where
  "req_question = \<lparr>sender_email = ''a@x'', stream = Some ''ops'', topic = None,
     incident_text = ''db?'', thread_context = []\<rparr>"

definition world_git_missing :: world where
  "world_git_missing =
     quiet_world\<lparr>analyzer_repos := [''adwyze''],
                 repo_recent_commits := (\<lambda>h repo limit. Inl ''git: No such file or directory'')\<rparr>"

definition state_with_incident :: state where
  "state_with_incident =
     initial_state\<lparr>incident_store := snd (get_or_create empty_store req_question)\<rparr>"

section \<open>Properties of the incident store\<close>

lemma update_at_incidents [simp]: "incidents (update_at st r s q) = incidents st"
  by (simp add: update_at_def)

lemma update_at_length [simp]: "length (objects (update_at st r s q)) = length (objects st)"
  by (simp add: update_at_def)

lemma get_or_create_keeps:
  "map_of (incidents st) k = Some r \<Longrightarrow>
   map_of (incidents (snd (get_or_create st q))) k = Some r"
  by (auto simp: get_or_create_def Let_def map_add_Some_iff split: option.splits)

lemma apply_op_keeps:
  "map_of (incidents st) k = Some r \<Longrightarrow> map_of (incidents (apply_op st op)) k = Some r"
  by (cases op) (simp_all add: get_or_create_keeps)

lemma run_ops_keeps:
  "map_of (incidents st) k = Some r \<Longrightarrow> map_of (incidents (run_ops ops st)) k = Some r"
  unfolding run_ops_def
  by (induction ops arbitrary: st) (auto intro: apply_op_keeps)

lemma get_or_create_binds:
  "map_of (incidents (snd (get_or_create st q))) (key_of (stream q) (topic q))
     = Some (fst (get_or_create st q))"
  by (auto simp: get_or_create_def Let_def map_add_Some_iff split: option.splits)

lemma get_or_create_hit:
  "map_of (incidents st) (key_of (stream q) (topic q)) = Some r \<Longrightarrow>
   get_or_create st q = (r, st)"
  by (simp add: get_or_create_def)

lemma get_or_create_miss:
  "map_of (incidents st) (key_of (stream q) (topic q)) = None \<Longrightarrow>
   get_or_create st q =
     (length (objects st),
      st\<lparr>incidents := incidents st @ [(key_of (stream q) (topic q), length (objects st))],
         objects := objects st @
           [\<lparr>inc_stream = stream q, inc_topic = topic q,
             last_summary = None, last_request = None, history = []\<rparr>]\<rparr>)"
  by (simp add: get_or_create_def)

lemma same_key_same_ref:
  assumes "key_of (stream r2) (topic r2) = key_of (stream r1) (topic r1)"
  shows "get_or_create (run_ops ops (snd (get_or_create st r1))) r2
           = (fst (get_or_create st r1), run_ops ops (snd (get_or_create st r1)))"
proof -
  have "map_of (incidents (run_ops ops (snd (get_or_create st r1))))
          (key_of (stream r2) (topic r2)) = Some (fst (get_or_create st r1))"
    unfolding assms by (rule run_ops_keeps) (rule get_or_create_binds)
  then show ?thesis by (rule get_or_create_hit)
qed

lemma store_ok_empty: "store_ok empty_store"
  by (simp add: store_ok_def empty_store_def)

lemma store_ok_bound:
  "store_ok st \<Longrightarrow> map_of (incidents st) k = Some r \<Longrightarrow> r < length (objects st)"
  by (auto simp: store_ok_def list_all_iff dest!: map_of_SomeD)

lemma store_ok_get_or_create: "store_ok st \<Longrightarrow> store_ok (snd (get_or_create st q))"
proof (cases "map_of (incidents st) (key_of (stream q) (topic q))")
  case None
  assume ok: "store_ok st"
  have fresh: "key_of (stream q) (topic q) \<notin> fst ` set (incidents st)"
    using None by (simp add: map_of_eq_None_iff)
  have bound: "\<forall>x\<in>set (incidents st). snd x < length (objects st)"
    using ok by (auto simp: store_ok_def list_all_iff)
  then have "length (objects st) \<notin> snd ` set (incidents st)"
    by auto
  with ok fresh bound show ?thesis
    by (auto simp: get_or_create_miss [OF None] store_ok_def list_all_iff)
next
  case (Some r)
  assume "store_ok st"
  then show ?thesis by (simp add: get_or_create_hit [OF Some])
qed

lemma store_ok_apply_op: "store_ok st \<Longrightarrow> store_ok (apply_op st op)"
  by (cases op) (auto simp: store_ok_get_or_create, simp add: store_ok_def)

lemma store_ok_run_ops: "store_ok st \<Longrightarrow> store_ok (run_ops ops st)"
  unfolding run_ops_def
  by (induction ops arbitrary: st) (auto simp: store_ok_apply_op)

lemma store_ok_inj:
  assumes ok: "store_ok st"
    and a: "map_of (incidents st) k = Some r" and b: "map_of (incidents st) k' = Some r"
  shows "k = k'"
proof -
  have "(k, r) \<in> set (incidents st)" "(k', r) \<in> set (incidents st)"
    using a b by (auto dest: map_of_SomeD)
  moreover have "inj_on snd (set (incidents st))"
    using ok by (simp add: store_ok_def distinct_map)
  ultimately show "k = k'"
    using inj_onD [of snd "set (incidents st)" "(k, r)" "(k', r)"] by simp
qed

lemma get_or_create_other:
  assumes ok: "store_ok st" and a: "map_of (incidents st) k = Some r"
    and ne: "k \<noteq> key_of (stream q) (topic q)"
  shows "fst (get_or_create st q) \<noteq> r"
proof (cases "map_of (incidents st) (key_of (stream q) (topic q))")
  case None
  from store_ok_bound [OF ok a] show ?thesis
    by (simp add: get_or_create_miss [OF None])
next
  case (Some r')
  from store_ok_inj [OF ok a] Some ne show ?thesis
    by (auto simp: get_or_create_hit [OF Some])
qed

lemma other_key_other_ref:
  assumes ok: "store_ok st"
    and ne: "key_of (stream r2) (topic r2) \<noteq> key_of (stream r1) (topic r1)"
  shows "fst (get_or_create (run_ops ops (snd (get_or_create st r1))) r2)
           \<noteq> fst (get_or_create st r1)"
proof (rule get_or_create_other)
  show "store_ok (run_ops ops (snd (get_or_create st r1)))"
    by (intro store_ok_run_ops store_ok_get_or_create ok)
  show "map_of (incidents (run_ops ops (snd (get_or_create st r1))))
          (key_of (stream r1) (topic r1)) = Some (fst (get_or_create st r1))"
    by (rule run_ops_keeps) (rule get_or_create_binds)
  show "key_of (stream r1) (topic r1) \<noteq> key_of (stream r2) (topic r2)"
    using ne by simp
qed

lemma key_of_same_stream:
  "key_of c t = key_of c t' \<longleftrightarrow> py_or t ''general'' = py_or t' ''general''"
  by (simp add: key_of_def)

text \<open>
  Claim C7, as the code has it: on a store the program has built, two requests with the
  same channel and topic get the same record (the same reference), whatever the store
  served in between; two requests of one channel get distinct records exactly when
  their topics differ after the default is filled in (no topic and the empty topic
  both stand for \<open>general\<close>); and the key is the channel or \<open>dm\<close>, two colons,
  and the topic or \<open>general\<close>, for every optional channel and topic.
\<close>

theorem get_or_create_same_thread:
  assumes "store_ok st" and "stream r2 = stream r1"
  shows "(topic r2 = topic r1 \<longrightarrow>
            fst (get_or_create (run_ops ops (snd (get_or_create st r1))) r2)
              = fst (get_or_create st r1)) \<and>
         (fst (get_or_create (run_ops ops (snd (get_or_create st r1))) r2)
              \<noteq> fst (get_or_create st r1)
            \<longleftrightarrow> py_or (topic r2) ''general'' \<noteq> py_or (topic r1) ''general'') \<and>
         key_of c t = py_or c ''dm'' @ ''::'' @ py_or t ''general''"
proof (intro conjI impI)
  assume "topic r2 = topic r1"
  with assms(2) show "fst (get_or_create (run_ops ops (snd (get_or_create st r1))) r2)
      = fst (get_or_create st r1)"
    by (simp add: same_key_same_ref)
next
  show "fst (get_or_create (run_ops ops (snd (get_or_create st r1))) r2)
          \<noteq> fst (get_or_create st r1)
        \<longleftrightarrow> py_or (topic r2) ''general'' \<noteq> py_or (topic r1) ''general''"
  proof (cases "key_of (stream r2) (topic r2) = key_of (stream r1) (topic r1)")
    case True
    then show ?thesis
      using assms(2) by (simp add: same_key_same_ref key_of_same_stream)
  next
    case False
    then show ?thesis
      using assms other_key_other_ref [OF assms(1) False, of ops]
      by (simp add: key_of_same_stream)
  qed
next
  show "key_of c t = py_or c ''dm'' @ ''::'' @ py_or t ''general''"
    by (simp add: key_of_def)
qed

theorem get_or_create_same_thread_witness:
  "fst (get_or_create
          (run_ops [GetOrCreate req_ops_general, Update 0 ''restart the pool'' req_ops_deploy]
             (snd (get_or_create empty_store req_ops_deploy))) req_ops_deploy)
     = fst (get_or_create empty_store req_ops_deploy) \<and>
   fst (get_or_create (run_ops [] (snd (get_or_create empty_store req_ops_deploy)))
          req_ops_general)
     \<noteq> fst (get_or_create empty_store req_ops_deploy)"
proof -
  have s: "stream req_ops_deploy = stream req_ops_deploy"
    "stream req_ops_general = stream req_ops_deploy"
    by (simp_all add: req_ops_deploy_def req_ops_general_def)
  have t: "py_or (topic req_ops_general) ''general'' \<noteq> py_or (topic req_ops_deploy) ''general''"
    by (simp add: req_ops_deploy_def req_ops_general_def py_or_def)
  from get_or_create_same_thread [OF store_ok_empty s(1)]
    get_or_create_same_thread [OF store_ok_empty s(2), of "[]"] t
  show ?thesis by simp
qed

text \<open>
  As claim C7 states it, any two different topics of one channel would give distinct
  records. The empty topic and the topic \<open>general\<close> of the channel \<open>ops\<close> are
  different topics and get the same record.
\<close>

theorem different_topic_same_record:
  "stream req_ops_empty = stream req_ops_general \<and>
   topic req_ops_empty \<noteq> topic req_ops_general \<and>
   fst (get_or_create (snd (get_or_create empty_store req_ops_empty)) req_ops_general)
     = fst (get_or_create empty_store req_ops_empty)"
  by (simp add: req_ops_empty_def req_ops_general_def empty_store_def get_or_create_def
      key_of_def py_or_def)

text \<open>
  Claim C10: the incident key is not injective. In any channel the threads with no
  topic, with the empty topic and with the topic \<open>general\<close> share one key, and so do
  no channel and the channel named \<open>dm\<close>; whenever two requests derive the same key,
  \<open>get_or_create\<close> hands the second the very record it gave the first, whatever
  requests were served in between.
\<close>

theorem key_not_injective:
  "key_of c None = key_of c (Some '''') \<and>
   key_of c (Some '''') = key_of c (Some ''general'') \<and>
   key_of None t = key_of (Some ''dm'') t \<and>
   (key_of (stream r2) (topic r2) = key_of (stream r1) (topic r1) \<longrightarrow>
      fst (get_or_create (run_ops ops (snd (get_or_create st r1))) r2)
        = fst (get_or_create st r1))"
  by (simp add: key_of_def py_or_def same_key_same_ref)

theorem key_not_injective_witness:
  "topic req_ops_none \<noteq> topic req_ops_general \<and>
   key_of (stream req_ops_general) (topic req_ops_general)
     = key_of (stream req_ops_none) (topic req_ops_none) \<and>
   fst (get_or_create (run_ops [GetOrCreate req_ops_deploy] (snd (get_or_create empty_store req_ops_none)))
          req_ops_general)
     = fst (get_or_create empty_store req_ops_none)"
proof -
  have k: "key_of (stream req_ops_general) (topic req_ops_general)
             = key_of (stream req_ops_none) (topic req_ops_none)"
    by (simp add: key_of_def py_or_def req_ops_none_def req_ops_general_def)
  have t: "topic req_ops_none \<noteq> topic req_ops_general"
    by (simp add: req_ops_none_def req_ops_general_def)
  from key_not_injective [of "Some ''ops''" None req_ops_general req_ops_none
      "[GetOrCreate req_ops_deploy]" empty_store] k t
  show ?thesis by simp
qed

section \<open>Properties of the keyword extractors\<close>

lemma first_seen_filter: "first_seen (filter P xs) = filter P (first_seen xs)"
proof (induction xs rule: first_seen.induct)
  case 1
  show ?case by simp
next
  case (2 x xs)
  have swap: "filter (\<lambda>y. y \<noteq> x) (filter P xs) = filter P (filter (\<lambda>y. y \<noteq> x) xs)"
    by (simp add: conj_commute)
  show ?case
  proof (cases "P x")
    case True
    with 2 swap show ?thesis by simp
  next
    case False
    then have "filter P xs = filter P (filter (\<lambda>y. y \<noteq> x) xs)"
      by (auto intro: filter_cong)
    with 2 False show ?thesis by simp
  qed
qed

lemma set_first_seen [simp]: "set (first_seen xs) = set xs"
  by (induction xs rule: first_seen.induct) auto

lemma distinct_first_seen [simp]: "distinct (first_seen xs)"
  by (induction xs rule: first_seen.induct) auto

lemma first_seen_snoc:
  "first_seen (xs @ [x]) = (if x \<in> set xs then first_seen xs else first_seen xs @ [x])"
  by (induction xs rule: first_seen.induct) auto

lemma counter_add_map:
  "distinct ks \<Longrightarrow>
   counter_add x (map (\<lambda>t. (t, f t)) ks) =
     (if x \<in> set ks then map (\<lambda>t. (t, if t = x then f t + 1 else f t)) ks
      else map (\<lambda>t. (t, f t)) ks @ [(x, 1)])"
  by (induction ks) auto

lemma fold_counter_add:
  "fold counter_add toks [] = map (\<lambda>t. (t, count_list toks t)) (first_seen toks)"
proof (induction toks rule: rev_induct)
  case Nil
  show ?case by simp
next
  case (snoc x xs)
  have "fold counter_add (xs @ [x]) [] =
      counter_add x (map (\<lambda>t. (t, count_list xs t)) (first_seen xs))"
    by (simp add: snoc)
  also have "\<dots> = map (\<lambda>t. (t, count_list (xs @ [x]) t)) (first_seen (xs @ [x]))"
    by (auto simp: counter_add_map first_seen_snoc count_list_0_iff)
  finally show ?case .
qed

lemma insort_key_map:
  "insort_key k (f x) (map f xs) = map f (insort_key (\<lambda>a. k (f a)) x xs)"
  by (induction xs) auto

lemma sort_key_map: "sort_key k (map f xs) = map f (sort_key (\<lambda>a. k (f a)) xs)"
  by (induction xs) (auto simp: insort_key_map)

text \<open>
  A list sorted by one relation, whose elements of each equal key are sorted by a
  second, is sorted by the first and then, among equal keys, the second.
\<close>

lemma sorted_wrt_lex:
  "sorted_wrt Q xs \<Longrightarrow> (\<And>k. sorted_wrt R (filter (\<lambda>x. f x = k) xs)) \<Longrightarrow>
   sorted_wrt (\<lambda>a b. Q a b \<and> (f a = f b \<longrightarrow> R a b)) xs"
proof (induction xs)
  case Nil
  show ?case by simp
next
  case (Cons x xs)
  have tail: "sorted_wrt (\<lambda>a b. Q a b \<and> (f a = f b \<longrightarrow> R a b)) xs"
  proof (rule Cons.IH)
    show "sorted_wrt Q xs" using Cons.prems(1) by simp
    fix k
    from Cons.prems(2) [of k] show "sorted_wrt R (filter (\<lambda>x. f x = k) xs)"
      by (simp split: if_splits)
  qed
  have "Q x y \<and> (f x = f y \<longrightarrow> R x y)" if "y \<in> set xs" for y
  proof
    show "Q x y" using Cons.prems(1) that by simp
    show "f x = f y \<longrightarrow> R x y"
    proof
      assume "f x = f y"
      with Cons.prems(2) [of "f x"] that show "R x y" by simp
    qed
  qed
  with tail show ?case by simp
qed

lemma first_index_bound: "a \<in> set xs \<Longrightarrow> first_index xs a < length xs"
  by (induction xs) (auto simp: first_index_def)

lemma first_index_old: "a \<in> set xs \<Longrightarrow> first_index (xs @ ys) a = first_index xs a"
  by (induction xs) (auto simp: first_index_def)

lemma first_index_new: "x \<notin> set xs \<Longrightarrow> first_index (xs @ [x]) x = length xs"
  by (induction xs) (auto simp: first_index_def)

lemma first_index_inj:
  "a \<in> set xs \<Longrightarrow> b \<in> set xs \<Longrightarrow> first_index xs a = first_index xs b \<Longrightarrow> a = b"
  by (induction xs) (auto simp: first_index_def split: if_splits)

lemma first_index_less:
  "sorted_wrt (\<lambda>a b. first_index xs a < first_index xs b) (first_seen xs)"
proof (induction xs rule: rev_induct)
  case Nil
  show ?case by simp
next
  case (snoc x xs)
  have "sorted_wrt (\<lambda>a b. first_index (xs @ [x]) a < first_index (xs @ [x]) b) (first_seen xs)"
    using snoc by (rule sorted_wrt_mono_rel [rotated]) (simp add: first_index_old)
  then show ?case
    by (auto simp: first_seen_snoc sorted_wrt_append first_index_old first_index_new
        first_index_bound)
qed

text \<open>
  The stable sort by descending count of the tokens in first-appearance order is the
  ranking by descending count and then first appearance.
\<close>

lemma stable_is_ranked:
  "sort_key (\<lambda>t. - int (count_list toks t)) (first_seen toks) = ranked toks"
proof (rule map_sorted_distinct_set_unique
    [where f = "\<lambda>t. (- int (count_list toks t), first_index toks t)"])
  let ?c = "\<lambda>t. - int (count_list toks t)"
  let ?key = "\<lambda>t. (?c t, first_index toks t)"
  let ?l = "sort_key ?c (first_seen toks)"
  show "inj_on ?key (set ?l \<union> set (ranked toks))"
  proof (rule inj_onI)
    fix a b assume "a \<in> set ?l \<union> set (ranked toks)" "b \<in> set ?l \<union> set (ranked toks)"
      and "?key a = ?key b"
    then have "a \<in> set toks" "b \<in> set toks" "first_index toks a = first_index toks b"
      by (auto simp: ranked_def)
    then show "a = b"
      by (rule first_index_inj)
  qed
  then have inj: "inj_on ?key (set toks)"
    by (simp add: ranked_def)
  have "sorted_wrt (\<lambda>a b. ?c a \<le> ?c b \<and>
      (?c a = ?c b \<longrightarrow> first_index toks a < first_index toks b)) ?l"
  proof (rule sorted_wrt_lex)
    show "sorted_wrt (\<lambda>a b. ?c a \<le> ?c b) ?l"
      using sorted_sort_key [of ?c "first_seen toks"] by (simp add: sorted_map)
    fix k
    show "sorted_wrt (\<lambda>a b. first_index toks a < first_index toks b)
        (filter (\<lambda>x. ?c x = k) ?l)"
      by (simp add: sort_key_stable sorted_wrt_filter first_index_less)
  qed
  then have "sorted_wrt (\<lambda>a b. ?key a \<le> ?key b) ?l"
    by (rule sorted_wrt_mono_rel [rotated]) (auto simp: less_eq_prod_def)
  then show "sorted (map ?key ?l)"
    by (simp add: sorted_map)
  show "distinct (map ?key ?l)"
    using inj by (simp add: distinct_map)
  show "sorted (map ?key (ranked toks))"
    unfolding ranked_def by (rule sorted_sort_key)
  show "distinct (map ?key (ranked toks))"
    using inj by (simp add: distinct_map ranked_def)
  show "set ?l = set (ranked toks)"
    by (simp add: ranked_def)
qed

lemma most_common_ranked:
  "map fst (most_common n (fold counter_add toks [])) = take (nat n) (ranked toks)"
  by (simp add: most_common_def fold_counter_add sort_key_map take_map o_def
      stable_is_ranked [symmetric])

lemma fold_skip:
  "fold (\<lambda>t c. if P t then c else if Q t then c else g t c) toks acc
     = fold g (filter (\<lambda>t. \<not> P t \<and> \<not> Q t) toks) acc"
  by (induction toks arbitrary: acc) auto

lemma triage_count_tokens_eq:
  "triage_count_tokens toks =
     fold counter_add (filter (\<lambda>t. t \<notin> set triage_STOP_WORDS \<and> \<not> isdigit t) toks) []"
  unfolding triage_count_tokens_def by (rule fold_skip)

lemma collect_keywords_eq:
  "int (length kws) < max 1 limit \<Longrightarrow>
   collect_keywords limit kws tokens =
     take (nat (max 1 limit))
       (kws @ first_seen (filter (\<lambda>t. t \<notin> set kws)
          (filter (\<lambda>t. t \<notin> set analyzer_STOP_WORDS) tokens)))"
proof (induction tokens arbitrary: kws)
  case Nil
  then show ?case by simp
next
  case (Cons t ts)
  show ?case
  proof (cases "t \<in> set analyzer_STOP_WORDS \<or> t \<in> set kws")
    case True
    with Cons show ?thesis by auto
  next
    case False
    let ?S = "filter (\<lambda>t. t \<notin> set analyzer_STOP_WORDS) ts"
    have rhs: "kws @ first_seen (filter (\<lambda>u. u \<notin> set kws)
          (filter (\<lambda>t. t \<notin> set analyzer_STOP_WORDS) (t # ts)))
        = (kws @ [t]) @ first_seen (filter (\<lambda>u. u \<notin> set (kws @ [t])) ?S)"
    proof -
      have eq: "filter (\<lambda>u. u \<notin> set (kws @ [t])) ?S
          = filter (\<lambda>y. y \<noteq> t) (filter (\<lambda>u. u \<notin> set kws) ?S)"
        by (induction ts) auto
      have "filter (\<lambda>u. u \<notin> set kws) (filter (\<lambda>t. t \<notin> set analyzer_STOP_WORDS) (t # ts))
          = t # filter (\<lambda>u. u \<notin> set kws) ?S"
        using False by simp
      then have "first_seen (filter (\<lambda>u. u \<notin> set kws)
            (filter (\<lambda>t. t \<notin> set analyzer_STOP_WORDS) (t # ts)))
          = t # first_seen (filter (\<lambda>y. y \<noteq> t) (filter (\<lambda>u. u \<notin> set kws) ?S))"
        by (simp only: first_seen.simps)
      then show ?thesis
        by (simp only: eq append_assoc append_Cons append_Nil)
    qed
    show ?thesis
    proof (cases "limit \<le> int (length (kws @ [t]))")
      case True
      with Cons.prems have "nat (max 1 limit) = length (kws @ [t])" by simp
      with True False show ?thesis unfolding rhs by simp
    next
      case le: False
      then have "int (length (kws @ [t])) < max 1 limit" by simp
      from Cons.IH [OF this] le False show ?thesis unfolding rhs by simp
    qed
  qed
qed

text \<open>
  Claim C2, as the code has it. The orchestration extractor returns its surviving
  tokens, each once, ranked by descending frequency with ties in order of first
  appearance, cut to the keyword limit (12 unless configured; nothing when the limit
  is not positive). The fallback analyzer's extractor does not rank: it returns the
  first \<open>limit\<close> distinct surviving tokens in order of first appearance (\<open>limit\<close> is 4
  at its one call; a limit below 1 still lets one token through).
\<close>

theorem keyword_extractors:
  "triage_extract_keywords K text = take (nat K) (ranked (triage_surviving text)) \<and>
   analyzer_extract_keywords L text
     = take (nat (max 1 L)) (first_seen (analyzer_surviving text)) \<and>
   KEYWORD_LIMIT_default = 12"
  by (simp add: triage_extract_keywords_def triage_count_tokens_eq most_common_ranked
      triage_surviving_def analyzer_extract_keywords_def analyzer_surviving_def
      collect_keywords_eq KEYWORD_LIMIT_default_def)

text \<open>
  As claim C2 states it, the fallback analyzer's extractor would rank by frequency
  too. On \<open>timeout gateway gateway\<close> it returns \<open>timeout\<close> before the more frequent
  \<open>gateway\<close>.
\<close>

theorem analyzer_keywords_not_ranked:
  "analyzer_extract_keywords 4 ''timeout gateway gateway'' = [''timeout'', ''gateway''] \<and>
   take 4 (ranked (analyzer_surviving ''timeout gateway gateway''))
     = [''gateway'', ''timeout'']"
  by code_simp

section \<open>Properties of message intake\<close>

lemma fold_keep:
  "fold (\<lambda>m acc. if P m then acc else acc @ [f m]) ms acc0
     = acc0 @ map f (filter (\<lambda>m. \<not> P m) ms)"
  by (induction ms arbitrary: acc0) auto

lemma thread_lines_of_eq:
  "thread_lines_of unescape ms =
     map (thread_line unescape)
       (filter (\<lambda>m. plain_text unescape (msg_content m) \<noteq> []) (slice_from (- 10) ms))"
  by (simp add: thread_lines_of_def fold_keep)

lemma thread_lines_of_length: "length (thread_lines_of unescape ms) \<le> 10"
proof -
  have "length (slice_from (- 10) ms) \<le> 10"
    by (simp add: slice_from_def)
  then show ?thesis
    unfolding thread_lines_of_eq
    using le_trans [OF length_filter_le] by simp
qed

lemma flat_alert: "plain_text id (msg_content msg_alert) = ''disk full''"
  by code_simp

lemma flat_blank: "plain_text id (msg_content msg_blank) = []"
  by code_simp

lemma line_alert: "thread_line id msg_alert = ''Ann: disk full''"
  by (simp add: thread_line_def flat_alert) (simp add: author_text_def msg_alert_def)

lemma eleven_lines: "thread_lines_of id thread_eleven = replicate 9 ''Ann: disk full''"
  by (simp add: thread_lines_of_eq thread_eleven_def slice_from_def flat_alert flat_blank
      line_alert)

lemma fetch_eleven:
  "fetch_thread_messages transport_eleven s t n = Messages_list thread_eleven"
  by (simp add: fetch_thread_messages_def transport_eleven_def)

lemma fetch_not_success:
  "\<forall>p. gm_result (get_messages p) \<noteq> Some ''success'' \<Longrightarrow>
   fetch_thread_messages get_messages s t n = Messages_list []"
  by (simp add: fetch_thread_messages_def Let_def)

lemma fetch_null:
  "fetch_thread_messages get_messages s t n = Messages_null \<Longrightarrow>
   \<exists>p. gm_result (get_messages p) = Some ''success'' \<and>
       gm_messages (get_messages p) = Some Messages_null"
  by (auto simp: fetch_thread_messages_def Let_def split: if_splits option.splits)

text \<open>
  Claim C3, as the code has it. Where a thread is resolved and the fetch returns a list
  of messages, the thread context handed to triage is made from the last 10 fetched
  messages: those of them that are not empty once flattened, each as the author, a
  colon and the flattened text, in their order; so it has at most 10 lines, and fewer
  when one of the last 10 messages is empty. When the fetch returns the empty list, or
  the transport reports an error, the context is empty and nothing is raised. The
  handler raises only where the transport answers success with the null value for its
  messages.
\<close>

theorem thread_context_lines:
  "(s \<noteq> [] \<and> t \<noteq> [] \<and> fetch_thread_messages get_messages s t 25 = Messages_list ms \<longrightarrow>
      thread_context_of unescape get_messages (Some s) (Some t)
        = Inr (map (thread_line unescape)
                 (filter (\<lambda>m. plain_text unescape (msg_content m) \<noteq> [])
                    (slice_from (- 10) ms)))) \<and>
   (thread_context_of unescape get_messages fs ft = Inr thread_lines \<longrightarrow>
      length thread_lines \<le> 10) \<and>
   thread_lines_of unescape ms =
     map (thread_line unescape)
       (filter (\<lambda>m. plain_text unescape (msg_content m) \<noteq> []) (slice_from (- 10) ms)) \<and>
   length (thread_lines_of unescape ms) \<le> 10 \<and>
   thread_line unescape m = author_text m @ '': '' @ plain_text unescape (msg_content m) \<and>
   (fetch_thread_messages get_messages s t 25 = Messages_list [] \<longrightarrow>
      thread_context_of unescape get_messages (Some s) (Some t) = Inr []) \<and>
   ((\<forall>p. gm_result (get_messages p) \<noteq> Some ''success'') \<longrightarrow>
      fetch_thread_messages get_messages s t n = Messages_list [] \<and>
      thread_context_of unescape get_messages fs ft = Inr []) \<and>
   (thread_context_of unescape get_messages fs ft = Inl e \<longrightarrow>
      (\<exists>p. gm_result (get_messages p) = Some ''success'' \<and>
           gm_messages (get_messages p) = Some Messages_null))"
proof (intro conjI impI)
  assume "s \<noteq> [] \<and> t \<noteq> [] \<and> fetch_thread_messages get_messages s t 25 = Messages_list ms"
  then show "thread_context_of unescape get_messages (Some s) (Some t)
        = Inr (map (thread_line unescape)
                 (filter (\<lambda>m. plain_text unescape (msg_content m) \<noteq> [])
                    (slice_from (- 10) ms)))"
    by (simp add: thread_context_of_def thread_lines_of_eq)
next
  assume "thread_context_of unescape get_messages fs ft = Inr thread_lines"
  then show "length thread_lines \<le> 10"
    by (auto simp: thread_context_of_def thread_lines_of_length
        split: option.splits if_splits messages_value.splits)
next
  show "thread_lines_of unescape ms =
     map (thread_line unescape)
       (filter (\<lambda>m. plain_text unescape (msg_content m) \<noteq> []) (slice_from (- 10) ms))"
    by (rule thread_lines_of_eq)
  show "length (thread_lines_of unescape ms) \<le> 10"
    by (rule thread_lines_of_length)
  show "thread_line unescape m = author_text m @ '': '' @ plain_text unescape (msg_content m)"
    by (simp add: thread_line_def)
next
  assume "fetch_thread_messages get_messages s t 25 = Messages_list []"
  then show "thread_context_of unescape get_messages (Some s) (Some t) = Inr []"
    by (simp add: thread_context_of_def thread_lines_of_def slice_from_def)
next
  assume err: "\<forall>p. gm_result (get_messages p) \<noteq> Some ''success''"
  show "fetch_thread_messages get_messages s t n = Messages_list []"
    by (rule fetch_not_success [OF err])
  show "thread_context_of unescape get_messages fs ft = Inr []"
    by (simp add: thread_context_of_def fetch_not_success [OF err] thread_lines_of_def
        slice_from_def split: option.splits)
next
  assume "thread_context_of unescape get_messages fs ft = Inl e"
  then obtain s' t' where "fetch_thread_messages get_messages s' t' 25 = Messages_null"
    by (auto simp: thread_context_of_def
        split: option.splits if_splits messages_value.splits)
  then show "\<exists>p. gm_result (get_messages p) = Some ''success'' \<and>
           gm_messages (get_messages p) = Some Messages_null"
    by (rule fetch_null)
qed

theorem thread_context_lines_witness:
  "thread_context_of id transport_eleven (Some ''ops'') (Some ''deploy'')
     = Inr (replicate 9 ''Ann: disk full'') \<and>
   length (replicate 9 ''Ann: disk full'') \<le> 10 \<and>
   thread_context_of id transport_error (Some ''ops'') (Some ''deploy'') = Inr [] \<and>
   thread_context_of id transport_null (Some ''ops'') (Some ''deploy'')
     = Inl none_not_subscriptable \<and>
   (\<exists>p. gm_result (transport_null p) = Some ''success'' \<and>
        gm_messages (transport_null p) = Some Messages_null)"
proof -
  have e: "\<forall>p. gm_result (transport_error p) \<noteq> Some ''success''"
    by (simp add: transport_error_def)
  have n: "thread_context_of id transport_null (Some ''ops'') (Some ''deploy'')
      = Inl none_not_subscriptable"
    by (simp add: thread_context_of_def fetch_thread_messages_def transport_null_def)
  have a: "thread_context_of id transport_eleven (Some ''ops'') (Some ''deploy'')
      = Inr (replicate 9 ''Ann: disk full'')"
    using thread_context_lines [where get_messages = transport_eleven and s = "''ops''"
        and t = "''deploy''" and ms = thread_eleven and unescape = id] fetch_eleven
    by (simp add: thread_lines_of_eq [symmetric] eleven_lines)
  have b: "length (replicate 9 ''Ann: disk full'') \<le> 10"
    using thread_context_lines [where get_messages = transport_eleven
        and fs = "Some ''ops''" and ft = "Some ''deploy''"
        and thread_lines = "replicate 9 ''Ann: disk full''" and unescape = id] a
    by simp
  have c: "thread_context_of id transport_error (Some ''ops'') (Some ''deploy'') = Inr []"
    using thread_context_lines [where get_messages = transport_error
        and fs = "Some ''ops''" and ft = "Some ''deploy''" and unescape = id] e
    by simp
  have d: "\<exists>p. gm_result (transport_null p) = Some ''success'' \<and>
        gm_messages (transport_null p) = Some Messages_null"
    using thread_context_lines [where get_messages = transport_null
        and fs = "Some ''ops''" and ft = "Some ''deploy''" and unescape = id
        and e = none_not_subscriptable] n
    by simp
  from a b c n d show ?thesis by simp
qed

text \<open>
  As claim C3 states it, the context would be the last 10 non-empty messages of the
  thread. For a thread of eleven fetched messages whose newest is empty, the handler
  keeps nine lines, and the last 10 non-empty messages are ten.
\<close>

theorem last_ten_not_nonempty:
  "fetch_thread_messages transport_eleven ''ops'' ''deploy'' 25 = Messages_list thread_eleven \<and>
   thread_context_of id transport_eleven (Some ''ops'') (Some ''deploy'')
     = Inr (replicate 9 ''Ann: disk full'') \<and>
   last_nonempty_lines id thread_eleven = replicate 10 ''Ann: disk full''"
proof -
  have "last_nonempty_lines id thread_eleven = replicate 10 ''Ann: disk full''"
    by (simp add: last_nonempty_lines_def thread_eleven_def slice_from_def flat_alert
        flat_blank line_alert)
  then show ?thesis
    by (simp add: thread_context_of_def fetch_eleven eleven_lines)
qed

lemma dot_to_percent_append:
  "is_hex h1 \<Longrightarrow> is_hex h2 \<Longrightarrow>
   dot_to_percent (pre @ CHR ''.'' # h1 # h2 # post)
     = dot_to_percent pre @ CHR ''%'' # h1 # h2 # dot_to_percent post"
proof (induction pre rule: dot_to_percent.induct)
  case (1 c a b rest)
  then show ?case by auto
qed (auto simp: is_hex_def is_09_def code_point_def)

lemma link_example:
  "re_search THREAD_LINK_RE_match ''see #narrow/channel/12-ops/topic/Q.2eA/near/345''
     = Some (''ops'', ''Q.2eA/near/345'')"
  by code_simp

lemma near_example: "before_sep ''/near/'' ''Q.2eA/near/345'' = ''Q.2eA''"
  by code_simp

lemma decode_example: "decode_url_component other ''Q.2eA'' = ''Q.A''"
  by code_simp

lemma thread_ref_example:
  "map_option snd
     (extract_thread_reference other ''see #narrow/channel/12-ops/topic/Q.2eA/near/345'' plain)
     = Some ''Q.A''"
  unfolding extract_thread_reference_def link_example option.case prod.case Let_def
    near_example decode_example
  by simp

text \<open>
  Claim C9: the topic is decoded by rewriting the dot escapes and then percent-decoding;
  every dot that two hex digits follow becomes a percent sign, wherever it stands; the
  segment \<open>Q.2eA\<close> decodes to \<open>Q.A\<close>, also when it arrives in a deep link with its
  position marker.
\<close>

theorem decode_topic:
  "decode_url_component other encoded = unquote other (dot_to_percent encoded) \<and>
   (is_hex h1 \<and> is_hex h2 \<longrightarrow>
      dot_to_percent (pre @ CHR ''.'' # h1 # h2 # post)
        = dot_to_percent pre @ CHR ''%'' # h1 # h2 # dot_to_percent post) \<and>
   decode_url_component other ''Q.2eA'' = ''Q.A'' \<and>
   map_option snd
     (extract_thread_reference other ''see #narrow/channel/12-ops/topic/Q.2eA/near/345'' plain)
     = Some ''Q.A''"
  by (simp add: decode_url_component_def [of other encoded] dot_to_percent_append
      decode_example thread_ref_example)

theorem decode_topic_witness:
  "dot_to_percent (''Q'' @ CHR ''.'' # CHR ''2'' # CHR ''e'' # ''A'') = ''Q%2eA''"
proof -
  have h: "is_hex CHR ''2'' \<and> is_hex CHR ''e''"
    by code_simp
  from decode_topic [where ?h1.0 = "CHR ''2''" and ?h2.0 = "CHR ''e''" and pre = "''Q''"
      and post = "''A''" and other = id and encoded = "[]" and plain = "[]"] h
  show ?thesis by simp
qed

lemma extract_command_alias:
  "product_search a = None \<Longrightarrow>
   match_commands (strip t) a COMMAND_ALIASES = Some (Some c, []) \<Longrightarrow>
   lower (strip t) = a \<Longrightarrow> extract_command t = (Some c, [])"
  by (simp add: extract_command_def Let_def)

lemma no_product_in_aliases:
  "list_all (\<lambda>a. product_search a = None)
     [''status'', ''triage status'', ''status?'', ''show status'', ''rerun'', ''next steps'',
      ''next-steps'', ''product'']"
  by code_simp

lemma status_aliases:
  "list_all (\<lambda>a. match_commands text a COMMAND_ALIASES = Some (Some ''status'', []))
     [''status'', ''triage status'', ''status?'', ''show status'']"
  by code_simp

lemma rerun_aliases:
  "list_all (\<lambda>a. match_commands text a COMMAND_ALIASES = Some (Some ''rerun'', []))
     [''rerun'', ''next steps'', ''next-steps'']"
  by code_simp

lemma product_alias:
  "match_commands text ''product'' COMMAND_ALIASES = Some (Some ''product'', [])"
  by code_simp

lemma slash_product_alias:
  "product_search ''/product'' = Some 0 \<and> str_find ''/product'' ''/product'' 0 = 0"
  by code_simp

lemma extract_command_slash_product:
  assumes "lower (strip t) = ''/product''"
  shows "extract_command t = (Some ''product'', [])"
proof -
  have "length (strip t) = length (lower (strip t))"
    by (simp add: lower_def)
  then have "length (strip t) = 8"
    by (simp add: assms)
  then have "slice_from 8 (strip t) = []"
    by (simp add: slice_from_def)
  then show ?thesis
    using assms slash_product_alias by (simp add: extract_command_def Let_def strip_def)
qed

text \<open>
  A text that equals, once trimmed and lowered, any other alias of the table gives
  that alias's command and the empty remainder.
\<close>

lemma extract_command_exact_alias:
  assumes "lower (strip t) = a"
  shows "(a \<in> set [''status'', ''triage status'', ''status?'', ''show status''] \<longrightarrow>
            extract_command t = (Some ''status'', [])) \<and>
         (a \<in> set [''rerun'', ''next steps'', ''next-steps''] \<longrightarrow>
            extract_command t = (Some ''rerun'', [])) \<and>
         (a \<in> set [''/product'', ''product''] \<longrightarrow>
            extract_command t = (Some ''product'', []))"
  using assms no_product_in_aliases status_aliases [of "strip t"] rerun_aliases [of "strip t"]
    product_alias [of "strip t"] extract_command_slash_product [of t]
  by (auto simp: extract_command_alias)

text \<open>
  Where the slash command stands in the text, the command is \<open>product\<close> and the
  remainder what follows it, trimmed; where neither it nor an alias matches, there is no
  command.
\<close>

lemma extract_command_product:
  assumes "product_search (lower (strip t)) = Some start"
  shows "extract_command t =
           (Some ''product'',
            strip (slice_from (str_find (lower (strip t)) ''/product'' start + 8) (strip t)))"
  using assms by (simp add: extract_command_def Let_def)

lemma extract_command_none:
  assumes "product_search (lower (strip t)) = None"
    and "match_commands (strip t) (lower (strip t)) COMMAND_ALIASES = None"
  shows "extract_command t = (None, [])"
  using assms by (simp add: extract_command_def Let_def)


text \<open>
  Claim C8 at the alias \<open>rerun analysis\<close>: the text equals a registered alias of
  \<open>rerun\<close>, and the command comes back with the remainder \<open>analysis\<close>, not the
  empty one; the shorter alias \<open>rerun\<close> is tried first and matches as a prefix.
  The alias \<open>rerun triage\<close> fares the same.
\<close>

theorem rerun_analysis_has_remainder:
  "(''rerun'', [''rerun'', ''rerun analysis'', ''rerun triage'', ''next steps'', ''next-steps''])
     \<in> set COMMAND_ALIASES \<and>
   extract_command ''rerun analysis'' = (Some ''rerun'', ''analysis'') \<and>
   extract_command ''rerun triage'' = (Some ''rerun'', ''triage'')"
  by code_simp

section \<open>Properties of the pipeline\<close>

lemma andthen_Inr:
  "andthen m f s = (Inr r, s') \<longleftrightarrow> (\<exists>x s1. m s = (Inr x, s1) \<and> f x s1 = (Inr r, s'))"
  by (auto simp: andthen_def split: prod.splits sum.splits)

lemma search_code_hit:
  "repo \<in> set (registry_repos w) \<Longrightarrow> search_cache s (repo, q) = Some cached \<Longrightarrow>
   search_code w repo q limit dirs s = (Inr (slice_to limit cached), s)"
  by (simp add: search_code_def)

lemma search_code_unregistered:
  "repo \<notin> set (registry_repos w) \<Longrightarrow> search_code w repo q limit dirs s = (Inr [], s)"
  by (simp add: search_code_def ret_def)

lemma search_code_keeps:
  "search_cache s k = Some c \<Longrightarrow>
   search_cache (snd (search_code w repo q limit dirs s)) k = Some c"
  by (auto simp: search_code_def ret_def andthen_def call_out_def cache_search_def
      split: option.splits sum.splits prod.splits)

lemma run_searches_keeps:
  "search_cache s k = Some c \<Longrightarrow> search_cache (run_searches w reqs s) k = Some c"
  unfolding run_searches_def
proof (induction reqs arbitrary: s)
  case Nil
  then show ?case by simp
next
  case (Cons r reqs)
  then show ?case by (cases r) (simp add: search_code_keeps)
qed

lemma search_code_first:
  assumes reg: "repo \<in> set (registry_repos w)"
    and first: "search_code w repo q limit dirs s = (Inr ms, s1)"
  shows "search_cache s1 (repo, q) \<noteq> None \<and>
         (ms = stored_matches s1 repo q \<or> ms = slice_to limit (stored_matches s1 repo q))"
proof (cases "search_cache s (repo, q)")
  case (Some cached)
  with reg first show ?thesis
    by (auto simp: search_code_hit stored_matches_def)
next
  case None
  with reg first show ?thesis
    by (auto simp: search_code_def ret_def andthen_def call_out_def cache_search_def
        stored_matches_def split: sum.splits prod.splits if_splits)
qed

text \<open>
  What the cache does. After a call of \<open>search_code\<close> has returned, every later call
  for the same repository and keyword, whatever searches ran in between, returns the
  stored match list cut to the limit it asks for and leaves the state as it is: no
  call reaches the remote or the local search, and the cache is not written. What the
  first call returned is the stored list, or (when the first call was itself answered
  from the cache) the stored list cut to its limit. So the two calls return the same
  matches whenever the first call's matches are no more than the limit. A repository
  the registry does not know gives no matches both times.
\<close>

lemma search_code_cached:
  assumes first: "search_code w repo q limit dirs s = (Inr ms, s1)"
  shows "(repo \<in> set (registry_repos w) \<longrightarrow>
            search_code w repo q limit' dirs' (run_searches w between s1)
              = (Inr (slice_to limit' (stored_matches s1 repo q)), run_searches w between s1) \<and>
            (ms = stored_matches s1 repo q \<or> ms = slice_to limit (stored_matches s1 repo q))) \<and>
         (repo \<notin> set (registry_repos w) \<longrightarrow>
            ms = [] \<and>
            search_code w repo q limit' dirs' (run_searches w between s1)
              = (Inr [], run_searches w between s1)) \<and>
         (int (length ms) \<le> limit \<longrightarrow>
            search_code w repo q limit dirs' (run_searches w between s1)
              = (Inr ms, run_searches w between s1))"
proof (cases "repo \<in> set (registry_repos w)")
  case False
  from first False have "ms = []"
    by (simp add: search_code_unregistered)
  with False show ?thesis
    by (simp add: search_code_unregistered)
next
  case True
  from search_code_first [OF True first]
  obtain cached where c: "search_cache s1 (repo, q) = Some cached"
    and ms: "ms = cached \<or> ms = slice_to limit cached"
    by (auto simp: stored_matches_def)
  have hit: "search_code w repo q l d (run_searches w between s1)
      = (Inr (slice_to l cached), run_searches w between s1)" for l d
    by (rule search_code_hit [OF True run_searches_keeps [OF c]])
  have idem: "slice_to limit cached = ms" if "int (length ms) \<le> limit"
    using ms that by (auto simp: slice_to_def)
  show ?thesis
    using True c ms hit idem by (auto simp: stored_matches_def)
qed

lemma search_code_cached_example:
  "search_code world_two_files ''adwyze'' ''timeout'' 3 None
     (run_searches world_two_files [Search ''adwyze'' ''deploy'' 2 None]
        (snd (search_code world_two_files ''adwyze'' ''timeout'' 3 None initial_state)))
   = (Inr three_matches,
      run_searches world_two_files [Search ''adwyze'' ''deploy'' 2 None]
        (snd (search_code world_two_files ''adwyze'' ''timeout'' 3 None initial_state)))"
proof -
  have first: "search_code world_two_files ''adwyze'' ''timeout'' 3 None initial_state
      = (Inr three_matches,
         snd (search_code world_two_files ''adwyze'' ''timeout'' 3 None initial_state))"
    by (simp add: search_code_def world_two_files_def quiet_world_def initial_state_def
      andthen_def call_out_def cache_search_def ret_def)
  have len: "int (length three_matches) \<le> 3"
    by (simp add: three_matches_def)
  from search_code_cached [OF first, of 3 None "[Search ''adwyze'' ''deploy'' 2 None]"] len
  show ?thesis by simp
qed

lemma first_two_files:
  "search_code world_two_files ''adwyze'' ''timeout'' 2 None initial_state
     = (Inr three_matches,
        initial_state\<lparr>calls := [Repo_search ''adwyze'' ''timeout'' 2],
          search_cache := [(''adwyze'', ''timeout'') \<mapsto> three_matches]\<rparr>)"
  by (simp add: search_code_def world_two_files_def quiet_world_def initial_state_def
      andthen_def call_out_def cache_search_def ret_def)

text \<open>
  Claim C4 where the local search returns more matches than the limit. It bounds the
  matches of each file, not their total: for the limit 2 it finds three matching lines
  in two files. The first call stores and returns all three, uncut; the second call,
  answered from the cache, returns the first two. The two calls with the same
  repository, keyword and limit return different matches.
\<close>

theorem second_search_truncates:
  "fst (search_code world_two_files ''adwyze'' ''timeout'' 2 None initial_state)
     = Inr three_matches \<and>
   fst (search_code world_two_files ''adwyze'' ''timeout'' 2 None
          (snd (search_code world_two_files ''adwyze'' ''timeout'' 2 None initial_state)))
     = Inr (take 2 three_matches) \<and>
   take 2 three_matches \<noteq> three_matches"
proof -
  have reg: "''adwyze'' \<in> set (registry_repos world_two_files)"
    by (simp add: world_two_files_def quiet_world_def)
  have "search_code world_two_files ''adwyze'' ''timeout'' 2 None
          (snd (search_code world_two_files ''adwyze'' ''timeout'' 2 None initial_state))
        = (Inr (slice_to 2 three_matches),
           snd (search_code world_two_files ''adwyze'' ''timeout'' 2 None initial_state))"
    by (rule search_code_hit [OF reg]) (simp add: first_two_files)
  moreover have "take 2 three_matches \<noteq> three_matches"
    by (simp add: three_matches_def)
  ultimately show ?thesis
    by (simp add: first_two_files slice_to_def)
qed

lemma run_raises:
  "orchestrator_gather request s = (Inl e, s1) \<Longrightarrow>
   run orchestrator_gather en llm_agent_run analyzer_analyze request s = (Inl e, s1)"
  by (simp add: run_def andthen_def)

lemma run_disabled:
  "orchestrator_gather request s = (Inr tool_results, s1) \<Longrightarrow>
   run orchestrator_gather False llm_agent_run analyzer_analyze request s
     = analyzer_analyze (combined_text request) s1"
  by (simp add: run_def andthen_def ret_def py_or_def)

lemma run_no_answer:
  "orchestrator_gather request s = (Inr tool_results, s1) \<Longrightarrow>
   llm_agent_run request tool_results s1 = (Inr out, s2) \<Longrightarrow> py_or out [] = [] \<Longrightarrow>
   run orchestrator_gather True llm_agent_run analyzer_analyze request s
     = analyzer_analyze (combined_text request) s2"
  by (simp add: run_def andthen_def)

lemma kws_question: "triage_extract_keywords 12 ''db?'' = [''db'']"
  by code_simp

lemma analyzer_kws_question: "analyzer_extract_keywords 4 (combined_text req_question) = []"
  by code_simp

lemma strip_preview: "strip ''  pool timeout  '' = ''pool timeout''"
  by code_simp

lemma str_int_7: "str_int 7 = ''7''"
  by code_simp

lemma match_directory_one:
  "match_directory \<lparr>path = ''app/db.rb'', line = 7, preview = ''  pool timeout  ''\<rparr>
     = ''app/db.rb''"
  by code_simp

lemma gather_one_repo:
  "gather world_one_repo req_question initial_state
     = (Inr [\<lparr>description = ''adwyze:app/db.rb:7'', content = ''pool timeout''\<rparr>],
        initial_state\<lparr>calls := [Repo_search ''adwyze'' ''db'' 3,
                                 Repo_read_file ''adwyze'' ''app/db.rb'' 4 10],
          search_cache := [(''adwyze'', ''db'') \<mapsto> one_match]\<rparr>)"
  by (simp add: gather_def Let_def req_question_def if_given_def kws_question
      resolve_service_hints_def list_repos_def world_one_repo_def quiet_world_def
      dynamic_directories_def search_code_def read_file_def andthen_def call_out_def ret_def
      cache_search_def initial_state_def one_match_def match_directory_one strip_preview
      str_int_7 most_common_def slice_to_def py_or_def startswith_def)

lemma gather_one_repo_llm:
  "gather (world_one_repo\<lparr>llm_enabled := True\<rparr>) req_question initial_state
     = (Inr [\<lparr>description = ''adwyze:app/db.rb:7'', content = ''pool timeout''\<rparr>],
        initial_state\<lparr>calls := [Repo_search ''adwyze'' ''db'' 3,
                                 Repo_read_file ''adwyze'' ''app/db.rb'' 4 10],
          search_cache := [(''adwyze'', ''db'') \<mapsto> one_match]\<rparr>)"
  by (simp add: gather_def Let_def req_question_def if_given_def kws_question
      resolve_service_hints_def list_repos_def world_one_repo_def quiet_world_def
      dynamic_directories_def search_code_def read_file_def andthen_def call_out_def ret_def
      cache_search_def initial_state_def one_match_def match_directory_one strip_preview
      str_int_7 most_common_def slice_to_def py_or_def startswith_def)

text \<open>Every piece of the pipeline only adds to the log of calls.\<close>

lemma grows_ret: "grows (ret x)"
  by (simp add: grows_def ret_def)

lemma grows_raise: "grows (raise e)"
  by (simp add: grows_def raise_def)

lemma grows_call_out: "grows (call_out c f)"
  by (simp add: grows_def call_out_def)

lemma grows_andthen:
  assumes "grows m" and "\<And>x. grows (f x)"
  shows "grows (andthen m f)"
  unfolding grows_def
proof
  fix s
  from assms(1) obtain a where a: "calls (snd (m s)) = calls s @ a"
    by (auto simp: grows_def)
  show "\<exists>more. calls (snd (andthen m f s)) = calls s @ more"
  proof (cases "m s")
    case (Pair r s1)
    show ?thesis
    proof (cases r)
      case (Inl e)
      with Pair a show ?thesis by (simp add: andthen_def)
    next
      case (Inr x)
      from assms(2) [of x] obtain b where "calls (snd (f x s1)) = calls s1 @ b"
        by (auto simp: grows_def)
      with Pair Inr a show ?thesis by (simp add: andthen_def)
    qed
  qed
qed

lemma grows_for_each:
  assumes "\<And>x acc. grows (body x acc)"
  shows "grows (for_each xs body acc)"
  by (induction xs arbitrary: acc) (auto intro: grows_ret grows_andthen assms)

lemma grows_if: "grows a \<Longrightarrow> grows b \<Longrightarrow> grows (if c then a else b)"
  by simp

lemma grows_search_code: "grows (search_code w repo q limit dirs)"
  unfolding grows_def
  by (auto simp: search_code_def ret_def andthen_def call_out_def cache_search_def
      split: option.splits sum.splits prod.splits)

lemma grows_read_file: "grows (read_file w repo p a b)"
  by (simp add: read_file_def grows_ret grows_call_out)

lemma grows_recent_commits: "grows (recent_commits w repo n)"
  by (simp add: recent_commits_def grows_ret grows_call_out)

lemma grows_dynamic_directories: "grows (dynamic_directories w repo kws n)"
  unfolding dynamic_directories_def
  by (intro grows_andthen grows_for_each grows_ret grows_search_code)

lemma grows_gather: "grows (gather w request)"
  unfolding gather_def Let_def
  by (intro grows_andthen grows_for_each grows_ret grows_search_code grows_if
      grows_read_file grows_recent_commits)
    (auto intro: grows_ret grows_dynamic_directories split: option.splits list.splits)

lemma grows_llm_run: "grows (llm_run w request trs)"
  by (simp add: llm_run_def grows_ret grows_andthen grows_call_out)

lemma grows_collect_matches: "grows (collect_matches w repo kws ms)"
  by (induction kws arbitrary: ms)
    (auto intro!: grows_ret grows_andthen grows_call_out)

lemma grows_analyze: "grows (analyze w t)"
  unfolding analyze_def Let_def
  by (intro grows_if grows_andthen grows_for_each grows_ret grows_collect_matches
      grows_call_out)


text \<open>
  Claim C1: \<open>run\<close> gathers first (when the gathering raises, \<open>run\<close> raises the same and
  nothing else has run); and when the language-model tier is disabled, or it ran and
  returned nothing or the empty text, \<open>run\<close> returns exactly what the analyzer makes of
  \<open>combined_text\<close> of the request, in the state the earlier steps left. The gathered
  tool results do not occur in that result: two orchestrators that leave the same
  state and differ in the results they return give the same output. This holds for
  every orchestrator, agent and analyzer the service is built from;
  \<open>triage_service_run\<close> is the service built from this program's, and in its log of
  calls everything the gathering did comes before anything else.
\<close>

theorem run_falls_back:
  "(orchestrator_gather request s = (Inl e, s') \<longrightarrow>
      run orchestrator_gather en llm_agent_run analyzer_analyze request s = (Inl e, s')) \<and>
   (orchestrator_gather request s = (Inr tool_results, s1) \<and> \<not> en \<longrightarrow>
      run orchestrator_gather en llm_agent_run analyzer_analyze request s
        = analyzer_analyze (combined_text request) s1) \<and>
   (orchestrator_gather request s = (Inr tool_results, s1) \<and> en \<and>
    llm_agent_run request tool_results s1 = (Inr out, s2) \<and> py_or out [] = [] \<longrightarrow>
      run orchestrator_gather en llm_agent_run analyzer_analyze request s
        = analyzer_analyze (combined_text request) s2) \<and>
   (gather_a request s = (Inr results_a, s1) \<and> gather_b request s = (Inr results_b, s1)
      \<and> \<not> en \<longrightarrow>
      run gather_a en llm_agent_run analyzer_analyze request s
        = run gather_b en llm_agent_run analyzer_analyze request s) \<and>
   triage_service_run w = run (gather w) (llm_enabled w) (llm_run w) (analyze w) \<and>
   (\<exists>more. calls (snd (triage_service_run w request s))
             = calls (snd (gather w request s)) @ more)"
proof -
  have "\<exists>more. calls (snd (triage_service_run w request s))
      = calls (snd (gather w request s)) @ more"
  proof (cases "gather w request s")
    case (Pair r s1)
    show ?thesis
    proof (cases r)
      case (Inl e)
      with Pair show ?thesis
        by (simp add: triage_service_run_def run_raises)
    next
      case (Inr trs)
      have "grows (\<lambda>s. run (\<lambda>q. ret trs) (llm_enabled w) (llm_run w) (analyze w) request s)"
        unfolding run_def
        by (intro grows_andthen grows_if grows_ret grows_llm_run grows_analyze)
      then obtain more where
        "calls (snd (run (\<lambda>q. ret trs) (llm_enabled w) (llm_run w) (analyze w) request s1))
           = calls s1 @ more"
        by (auto simp: grows_def)
      moreover have "triage_service_run w request s
          = run (\<lambda>q. ret trs) (llm_enabled w) (llm_run w) (analyze w) request s1"
        using Pair Inr by (simp add: triage_service_run_def run_def andthen_def ret_def)
      ultimately show ?thesis using Pair by simp
    qed
  qed
  then show ?thesis
    by (auto simp: run_disabled run_no_answer run_raises triage_service_run_def)
qed

theorem run_falls_back_witness:
  "triage_service_run world_one_repo req_question initial_state
     = analyze world_one_repo (combined_text req_question)
         (initial_state\<lparr>calls := [Repo_search ''adwyze'' ''db'' 3,
                                  Repo_read_file ''adwyze'' ''app/db.rb'' 4 10],
            search_cache := [(''adwyze'', ''db'') \<mapsto> one_match]\<rparr>) \<and>
   triage_service_run (world_one_repo\<lparr>llm_enabled := True\<rparr>) req_question initial_state
     = analyze (world_one_repo\<lparr>llm_enabled := True\<rparr>) (combined_text req_question)
         (initial_state\<lparr>calls := [Repo_search ''adwyze'' ''db'' 3,
                                  Repo_read_file ''adwyze'' ''app/db.rb'' 4 10,
                                  Codex_exec (llm_prompt req_question
                                    [\<lparr>description = ''adwyze:app/db.rb:7'',
                                      content = ''pool timeout''\<rparr>])],
            search_cache := [(''adwyze'', ''db'') \<mapsto> one_match]\<rparr>)"
proof -
  let ?w = "world_one_repo\<lparr>llm_enabled := True\<rparr>"
  let ?tr = "[\<lparr>description = ''adwyze:app/db.rb:7'', content = ''pool timeout''\<rparr>]"
  let ?s1 = "initial_state\<lparr>calls := [Repo_search ''adwyze'' ''db'' 3,
                                 Repo_read_file ''adwyze'' ''app/db.rb'' 4 10],
          search_cache := [(''adwyze'', ''db'') \<mapsto> one_match]\<rparr>"
  have d: "\<not> llm_enabled world_one_repo"
    by (simp add: world_one_repo_def quiet_world_def)
  have g: "gather ?w req_question initial_state = (Inr ?tr, ?s1)"
    by (rule gather_one_repo_llm)
  have l: "llm_run ?w req_question ?tr ?s1
      = (Inr None, ?s1\<lparr>calls := calls ?s1 @ [Codex_exec (llm_prompt req_question ?tr)]\<rparr>)"
    by (simp add: llm_run_def world_one_repo_def quiet_world_def andthen_def call_out_def
        ret_def)
  from run_falls_back [where orchestrator_gather = "gather world_one_repo"
      and request = req_question and s = initial_state
      and en = "llm_enabled world_one_repo" and llm_agent_run = "llm_run world_one_repo"
      and analyzer_analyze = "analyze world_one_repo" and tool_results = ?tr
      and ?s1.0 = ?s1 and w = world_one_repo] gather_one_repo d
  have a: "triage_service_run world_one_repo req_question initial_state
      = analyze world_one_repo (combined_text req_question) ?s1"
    by simp
  from run_falls_back [where orchestrator_gather = "gather ?w"
      and request = req_question and s = initial_state
      and en = "llm_enabled ?w" and llm_agent_run = "llm_run ?w"
      and analyzer_analyze = "analyze ?w" and tool_results = ?tr and ?s1.0 = ?s1
      and out = None
      and ?s2.0 = "?s1\<lparr>calls := calls ?s1 @ [Codex_exec (llm_prompt req_question ?tr)]\<rparr>"
      and w = ?w]
    g l
  have b: "triage_service_run ?w req_question initial_state
      = analyze ?w (combined_text req_question)
          (?s1\<lparr>calls := calls ?s1 @ [Codex_exec (llm_prompt req_question ?tr)]\<rparr>)"
    by (simp add: py_or_def)
  from a b show ?thesis by (simp add: initial_state_def)
qed

lemma join_nonempty: "x \<noteq> [] \<Longrightarrow> join sep (x # xs) \<noteq> []"
  by (cases xs) auto

lemma analyze_nonempty: "analyze w t s = (Inr text, s') \<Longrightarrow> text \<noteq> []"
  by (auto simp: analyze_def Let_def ret_def not_located_def andthen_Inr report_lines_def
      join_nonempty split: if_splits)

lemma gather_no_repos: "registry_repos w = [] \<Longrightarrow> gather w request s = (Inr [], s)"
  by (simp add: gather_def Let_def resolve_service_hints_def list_repos_def if_given_def
      ret_def andthen_def)

lemma analyze_no_repos: "analyzer_repos w = [] \<Longrightarrow> analyze w t s = (Inr not_located, s)"
  by (simp add: analyze_def Let_def ret_def)

text \<open>
  Claim C5: whenever \<open>run\<close> returns, the text it returns is not empty; and with the
  language-model tier disabled and no repository for the analyzer, it returns the
  sentence that the repositories could not be located, whatever the keywords: after
  any gathering that returns, and from the start when the tool registry has no
  repository either.
\<close>

theorem run_never_empty:
  "(triage_service_run w request s = (Inr text, s') \<longrightarrow> text \<noteq> []) \<and>
   (\<not> llm_enabled w \<and> analyzer_repos w = [] \<and> gather w request s = (Inr tool_results, s1)
      \<longrightarrow> triage_service_run w request s = (Inr not_located, s1)) \<and>
   (\<not> llm_enabled w \<and> analyzer_repos w = [] \<and> registry_repos w = []
      \<longrightarrow> triage_service_run w request s = (Inr not_located, s)) \<and>
   not_located
     = ''I could not locate the local repos; please ensure they exist next to this project.''"
proof (intro conjI impI)
  assume "triage_service_run w request s = (Inr text, s')"
  then show "text \<noteq> []"
    by (auto simp: triage_service_run_def run_def andthen_Inr ret_def
        dest: analyze_nonempty split: if_splits)
next
  assume "\<not> llm_enabled w \<and> analyzer_repos w = [] \<and> gather w request s = (Inr tool_results, s1)"
  then show "triage_service_run w request s = (Inr not_located, s1)"
    by (simp add: triage_service_run_def run_disabled analyze_no_repos)
next
  assume "\<not> llm_enabled w \<and> analyzer_repos w = [] \<and> registry_repos w = []"
  then show "triage_service_run w request s = (Inr not_located, s)"
    by (simp add: triage_service_run_def run_disabled [OF gather_no_repos] analyze_no_repos)
next
  show "not_located
     = ''I could not locate the local repos; please ensure they exist next to this project.''"
    by (simp add: not_located_def)
qed

theorem run_never_empty_witness:
  "triage_service_run quiet_world req_question initial_state
     = (Inr ''I could not locate the local repos; please ensure they exist next to this project.'',
        initial_state)"
proof -
  have "\<not> llm_enabled quiet_world \<and> analyzer_repos quiet_world = []
      \<and> registry_repos quiet_world = []"
    by (simp add: quiet_world_def)
  with run_never_empty [of quiet_world req_question initial_state]
  show ?thesis by simp
qed

lemma reply_request_content:
  "reply_request w m text = Inr request \<Longrightarrow> sr_content request = text"
  by (auto simp: reply_request_def Let_def
      split: option.splits if_splits display_recipient.splits)

lemma analyze_git_missing:
  "analyze world_git_missing (combined_text req_question) s
     = (Inl ''git: No such file or directory'',
        s\<lparr>calls := calls s @ [Repo_recent_commits ''adwyze'' 1]\<rparr>)"
  by (simp add: analyze_def Let_def analyzer_kws_question world_git_missing_def
      quiet_world_def andthen_def call_out_def ret_def)

lemma reply_request_keys:
  "has_reply_keys m \<longleftrightarrow> (\<exists>request. reply_request w m text = Inr request)"
  by (auto simp: has_reply_keys_def reply_request_def Let_def list_ex_iff
      split: option.splits display_recipient.splits if_splits)

lemma run_git_missing:
  "triage_service_run world_git_missing req_question state_with_incident
     = (Inl ''git: No such file or directory'',
        state_with_incident\<lparr>calls := [Repo_recent_commits ''adwyze'' 1]\<rparr>)"
proof -
  have reg: "registry_repos world_git_missing = []"
    by (simp add: world_git_missing_def quiet_world_def)
  have dis: "\<not> llm_enabled world_git_missing"
    by (simp add: world_git_missing_def quiet_world_def)
  show ?thesis
    using dis
    by (simp add: triage_service_run_def run_disabled [OF gather_no_repos [OF reg]]
        analyze_git_missing state_with_incident_def initial_state_def)
qed

text \<open>
  Claim C6, as the code has it. Whatever \<open>run\<close> does for the message's request, return
  a text or raise, the worker task makes the summary: the text, or the failure sentence
  with the exception's text after it; and it updates the incident with the summary.
  Where the message has the keys the reply reads, exactly one message, carrying the
  summary, is then handed to the transport after everything \<open>run\<close> did, and the task
  returns without raising when the transport returns; what the transport raises, the
  task raises. Where the message lacks one of those keys, building the reply raises,
  nothing is handed to the transport and the task raises: only \<open>run\<close> stands inside
  the \<open>try\<close>.
\<close>

theorem reply_always_sent:
  assumes "triage_service_run w triage_request s = (outcome, s1)"
  shows "(has_reply_keys m \<longrightarrow>
            (\<exists>request.
               reply_request w m (summary_of outcome) = Inr request \<and>
               sr_content request = summary_of outcome \<and>
               run_triage_and_reply w m triage_request incident s
                 = (case send_message w (calls s1) request of
                      Inl e \<Rightarrow> Inl e
                    | Inr response \<Rightarrow> Inr (),
                    s1\<lparr>incident_store :=
                          update_at (incident_store s1) incident (summary_of outcome)
                            triage_request,
                       calls := calls s1 @ [Zulip_send_message request]\<rparr>))) \<and>
         (\<not> has_reply_keys m \<longrightarrow>
            (\<exists>e. run_triage_and_reply w m triage_request incident s
                   = (Inl e,
                      s1\<lparr>incident_store :=
                            update_at (incident_store s1) incident (summary_of outcome)
                              triage_request\<rparr>))) \<and>
         (\<forall>exc. outcome = Inl exc \<longrightarrow>
            summary_of outcome = ''Unable to run automated analysis: '' @ exc)"
proof (intro conjI impI)
  assume "has_reply_keys m"
  then obtain request where r: "reply_request w m (summary_of outcome) = Inr request"
    using reply_request_keys by blast
  have c: "sr_content request = summary_of outcome"
    by (rule reply_request_content [OF r])
  have "run_triage_and_reply w m triage_request incident s
      = (case send_message w (calls s1) request of
           Inl e \<Rightarrow> Inl e
         | Inr response \<Rightarrow> Inr (),
         s1\<lparr>incident_store :=
               update_at (incident_store s1) incident (summary_of outcome) triage_request,
            calls := calls s1 @ [Zulip_send_message request]\<rparr>)"
    using assms r
    by (simp add: run_triage_and_reply_def send_reply_def andthen_def call_out_def ret_def
        split: sum.splits)
  with r c show "\<exists>request.
      reply_request w m (summary_of outcome) = Inr request \<and>
      sr_content request = summary_of outcome \<and>
      run_triage_and_reply w m triage_request incident s
        = (case send_message w (calls s1) request of
             Inl e \<Rightarrow> Inl e
           | Inr response \<Rightarrow> Inr (),
           s1\<lparr>incident_store :=
                 update_at (incident_store s1) incident (summary_of outcome) triage_request,
              calls := calls s1 @ [Zulip_send_message request]\<rparr>)"
    by blast
next
  assume "\<not> has_reply_keys m"
  then obtain e where "reply_request w m (summary_of outcome) = Inl e"
    using reply_request_keys [of m w "summary_of outcome"]
    by (cases "reply_request w m (summary_of outcome)") auto
  then show "\<exists>e. run_triage_and_reply w m triage_request incident s
      = (Inl e,
         s1\<lparr>incident_store :=
               update_at (incident_store s1) incident (summary_of outcome) triage_request\<rparr>)"
    using assms
    by (simp add: run_triage_and_reply_def send_reply_def andthen_def raise_def)
next
  show "\<forall>exc. outcome = Inl exc \<longrightarrow>
      summary_of outcome = ''Unable to run automated analysis: '' @ exc"
    by (simp add: summary_of_def failure_summary_def)
qed

theorem reply_always_sent_witness:
  "run_triage_and_reply world_git_missing stream_message req_question 0 state_with_incident
     = (Inr (),
        state_with_incident
          \<lparr>incident_store :=
             update_at (incident_store state_with_incident) 0
               ''Unable to run automated analysis: git: No such file or directory''
               req_question,
           calls :=
             [Repo_recent_commits ''adwyze'' 1,
              Zulip_send_message
                \<lparr>sr_type = ''stream'',
                 sr_content = ''Unable to run automated analysis: git: No such file or directory'',
                 sr_to = To_display (To_stream ''ops''), sr_topic = Some ''db''\<rparr>]\<rparr>)"
proof -
  have k: "has_reply_keys stream_message"
    by (simp add: has_reply_keys_def stream_message_def)
  have r: "reply_request world_git_missing stream_message
             (summary_of (Inl ''git: No such file or directory''))
      = Inr \<lparr>sr_type = ''stream'',
          sr_content = ''Unable to run automated analysis: git: No such file or directory'',
          sr_to = To_display (To_stream ''ops''), sr_topic = Some ''db''\<rparr>"
    by (simp add: reply_request_def stream_message_def summary_of_def failure_summary_def)
  have t: "send_message world_git_missing h request = Inr \<lparr>rs_result = Some ''success''\<rparr>"
    for h request
    by (simp add: world_git_missing_def quiet_world_def)
  from reply_always_sent [OF run_git_missing, of stream_message 0] k r t
  show ?thesis
    by (simp add: summary_of_def failure_summary_def state_with_incident_def
        initial_state_def)
qed

text \<open>
  As claim C6 states it, a reply would be sent and no exception would leave the task
  for every message. For a message with no \<open>type\<close>, whose analysis failed, the task
  raises \<open>KeyError\<close> and the transport is not called.
\<close>

theorem reply_not_sent:
  "run_triage_and_reply world_git_missing untyped_message req_question 0 state_with_incident
     = (Inl (key_error ''type''),
        state_with_incident
          \<lparr>incident_store :=
             update_at (incident_store state_with_incident) 0
               ''Unable to run automated analysis: git: No such file or directory''
               req_question,
           calls := [Repo_recent_commits ''adwyze'' 1]\<rparr>)"
proof -
  have "reply_request world_git_missing untyped_message body = Inl (key_error ''type'')"
    for body
    by (simp add: reply_request_def untyped_message_def stream_message_def)
  then show ?thesis
    by (simp add: run_triage_and_reply_def run_git_missing send_reply_def andthen_def
        raise_def summary_of_def failure_summary_def)
qed

end
